theory Spec2Isabelle
  imports Complex_Main "HOL-Library.AList"
begin

section \<open>JavaScript values\<close>

text \<open>
  The route handler of \<^verbatim>\<open>src/app/routes/topics/list.js\<close> inspects parsed JSON bodies with
  JavaScript's truthiness, property access and loose equality. \<open>jsval\<close> is the part of the
  JavaScript value space a parsed JSON document (plus \<^verbatim>\<open>undefined\<close>) lives in. Numbers are the
  integers (exact in a double below \<open>2^53\<close>); an object is the list of its own properties in
  the order of the document, a repeated key read as \<^verbatim>\<open>JSON.parse\<close> reads it (the last wins).
  Strings are lists of code units; only ASCII is interpreted.
\<close>

datatype jsval =
    JUndefined
  | JNull
  | JBool bool
  | JNum int
  | JStr string
  | JArr "jsval list"
  | JObj "(string \<times> jsval) list"

text \<open>ToBoolean: \<^verbatim>\<open>undefined\<close>, \<^verbatim>\<open>null\<close>, \<^verbatim>\<open>false\<close>, \<^verbatim>\<open>0\<close> and \<^verbatim>\<open>''\<close> are falsy, every
  array and object (also the empty ones) is truthy.\<close>

fun truthy :: "jsval \<Rightarrow> bool" where
  "truthy JUndefined = False"
| "truthy JNull = False"
| "truthy (JBool b) = b"
| "truthy (JNum n) = (n \<noteq> 0)"
| "truthy (JStr s) = (s \<noteq> [])"
| "truthy (JArr xs) = True"
| "truthy (JObj kvs) = True"

text \<open>Reading a property of \<^verbatim>\<open>undefined\<close> or \<^verbatim>\<open>null\<close> throws a TypeError.\<close>

fun nullish :: "jsval \<Rightarrow> bool" where
  "nullish JUndefined = True"
| "nullish JNull = True"
| "nullish v = False"

text \<open>\<^verbatim>\<open>v.k\<close> for a value that is not nullish and a name \<open>k\<close> that no prototype defines (the
  handler reads \<^verbatim>\<open>result\<close>, \<^verbatim>\<open>status\<close>, \<^verbatim>\<open>content\<close>, \<^verbatim>\<open>success\<close>, \<^verbatim>\<open>topic_id\<close>, \<^verbatim>\<open>data\<close>,
  \<^verbatim>\<open>firstName\<close>, \<^verbatim>\<open>lastName\<close>, \<^verbatim>\<open>handle\<close>, \<^verbatim>\<open>email\<close>): an object's own property, else
  \<^verbatim>\<open>undefined\<close>.\<close>

fun get_prop :: "jsval \<Rightarrow> string \<Rightarrow> jsval" where
  "get_prop (JObj kvs) k = (case map_of (rev kvs) k of None \<Rightarrow> JUndefined | Some v \<Rightarrow> v)"
| "get_prop v k = JUndefined"

subsection \<open>ToString\<close>

fun show_nat :: "nat \<Rightarrow> string" where
  "show_nat n =
     (if n < 10 then [char_of (48 + n)]
      else show_nat (n div 10) @ [char_of (48 + n mod 10)])"

definition show_int :: "int \<Rightarrow> string" where
  "show_int i = (if i < 0 then CHR ''-'' # show_nat (nat (- i)) else show_nat (nat i))"

fun join_comma :: "string list \<Rightarrow> string" where
  "join_comma [] = []"
| "join_comma [s] = s"
| "join_comma (s # t # ss) = s @ CHR '','' # join_comma (t # ss)"

text \<open>ToString as string concatenation and template literals apply it. An array is its
  elements joined with commas, \<^verbatim>\<open>undefined\<close> and \<^verbatim>\<open>null\<close> elements printing as nothing.
  Integers print in decimal (JavaScript switches to exponent notation from \<open>10^21\<close> on, which
  is outside the numbers modelled here).\<close>

fun ToString :: "jsval \<Rightarrow> string" where
  "ToString JUndefined = ''undefined''"
| "ToString JNull = ''null''"
| "ToString (JBool b) = (if b then ''true'' else ''false'')"
| "ToString (JNum n) = show_int n"
| "ToString (JStr s) = s"
| "ToString (JArr xs) = join_comma (map (\<lambda>v. if nullish v then [] else ToString v) xs)"
| "ToString (JObj kvs) = ''[object Object]''"

subsection \<open>ToNumber of a string, and loose equality with a number\<close>

definition is_ws :: "char \<Rightarrow> bool" where
  "is_ws c = (of_char c \<in> {9, 10, 11, 12, 13, 32 :: nat})"

definition trim :: "string \<Rightarrow> string" where
  "trim s = rev (dropWhile is_ws (rev (dropWhile is_ws s)))"

definition digit_val :: "char \<Rightarrow> nat option" where
  "digit_val c =
     (let n = (of_char c :: nat) in
      if 48 \<le> n \<and> n \<le> 57 then Some (n - 48)
      else if 97 \<le> n \<and> n \<le> 102 then Some (n - 87)
      else if 65 \<le> n \<and> n \<le> 70 then Some (n - 55)
      else None)"

definition is_digit :: "char \<Rightarrow> bool" where
  "is_digit c = (48 \<le> (of_char c :: nat) \<and> (of_char c :: nat) \<le> 57)"

definition digits_val :: "nat \<Rightarrow> string \<Rightarrow> nat" where
  "digits_val b ds = foldl (\<lambda>a c. a * b + (case digit_val c of None \<Rightarrow> 0 | Some d \<Rightarrow> d)) 0 ds"

definition radix_literal :: "nat \<Rightarrow> string \<Rightarrow> rat option" where
  "radix_literal b ds =
     (if ds \<noteq> [] \<and> list_all (\<lambda>c. case digit_val c of None \<Rightarrow> False | Some d \<Rightarrow> d < b) ds
      then Some (of_nat (digits_val b ds)) else None)"

text \<open>The exponent part of a decimal literal: nothing, or \<^verbatim>\<open>e\<close>/\<^verbatim>\<open>E\<close>, an optional sign and
  digits up to the end of the string.\<close>

definition exponent_part :: "string \<Rightarrow> int option" where
  "exponent_part r =
     (case r of
        [] \<Rightarrow> Some 0
      | c # r1 \<Rightarrow>
          if c = CHR ''e'' \<or> c = CHR ''E'' then
            (let neg = (r1 \<noteq> [] \<and> hd r1 = CHR ''-'');
                 ds = (if r1 \<noteq> [] \<and> (hd r1 = CHR ''-'' \<or> hd r1 = CHR ''+'') then tl r1 else r1)
             in if ds \<noteq> [] \<and> list_all is_digit ds
                then Some (if neg then - int (digits_val 10 ds) else int (digits_val 10 ds))
                else None)
          else None)"

definition pow10 :: "int \<Rightarrow> rat" where
  "pow10 e = (if 0 \<le> e then 10 ^ nat e else 1 / 10 ^ nat (- e))"

definition unsigned_decimal :: "string \<Rightarrow> rat option" where
  "unsigned_decimal u =
     (let ip = takeWhile is_digit u;
          r1 = dropWhile is_digit u;
          dot = (r1 \<noteq> [] \<and> hd r1 = CHR ''.'');
          fp = (if dot then takeWhile is_digit (tl r1) else []);
          r2 = (if dot then dropWhile is_digit (tl r1) else r1)
      in if ip = [] \<and> fp = [] then None
         else (case exponent_part r2 of
                 None \<Rightarrow> None
               | Some e \<Rightarrow>
                   Some ((of_nat (digits_val 10 ip)
                           + of_nat (digits_val 10 fp) / 10 ^ length fp) * pow10 e)))"

text \<open>ToNumber on a string (the StringNumericLiteral grammar): surrounding white space is
  dropped, the empty string is \<open>0\<close>, hexadecimal, octal and binary literals take no sign, a
  decimal literal takes an optional sign, fraction and exponent. \<open>None\<close> stands for \<^verbatim>\<open>NaN\<close>
  and for \<^verbatim>\<open>\<plusminus>Infinity\<close>, neither of which equals a finite number. The value is the exact
  rational; the rounding of a literal to the nearest double is not modelled.\<close>

definition StringToNumber :: "string \<Rightarrow> rat option" where
  "StringToNumber s =
     (let t = trim s in
      if t = [] then Some 0
      else if take 2 t = ''0x'' \<or> take 2 t = ''0X'' then radix_literal 16 (drop 2 t)
      else if take 2 t = ''0o'' \<or> take 2 t = ''0O'' then radix_literal 8 (drop 2 t)
      else if take 2 t = ''0b'' \<or> take 2 t = ''0B'' then radix_literal 2 (drop 2 t)
      else if hd t = CHR ''-'' then map_option uminus (unsigned_decimal (tl t))
      else if hd t = CHR ''+'' then unsigned_decimal (tl t)
      else unsigned_decimal t)"

text \<open>\<^verbatim>\<open>v == n\<close> for a number \<open>n\<close>: \<^verbatim>\<open>undefined\<close> and \<^verbatim>\<open>null\<close> equal no number, a boolean
  and a string are converted with ToNumber, an array or object with ToPrimitive (its
  ToString) first.\<close>

fun loose_eq_num :: "jsval \<Rightarrow> int \<Rightarrow> bool" where
  "loose_eq_num JUndefined n = False"
| "loose_eq_num JNull n = False"
| "loose_eq_num (JBool b) n = ((if b then 1 else 0) = n)"
| "loose_eq_num (JNum m) n = (m = n)"
| "loose_eq_num (JStr s) n = (StringToNumber s = Some (of_int n))"
| "loose_eq_num (JArr xs) n = (StringToNumber (ToString (JArr xs)) = Some (of_int n))"
| "loose_eq_num (JObj kvs) n = (StringToNumber (ToString (JObj kvs)) = Some (of_int n))"

subsection \<open>String.prototype.split and String.prototype.replace\<close>

text \<open>\<^verbatim>\<open>s.split(c)\<close> for a one-character separator: the empty string splits into one empty
  segment.\<close>

fun split_on :: "char \<Rightarrow> string \<Rightarrow> string list" where
  "split_on c [] = [[]]"
| "split_on c (x # xs) =
     (if x = c then [] # split_on c xs
      else (case split_on c xs of [] \<Rightarrow> [[x]] | y # ys \<Rightarrow> (x # y) # ys))"

text \<open>The first occurrence of a pattern: what stands before and after it.\<close>

fun find_sub :: "string \<Rightarrow> string \<Rightarrow> (string \<times> string) option" where
  "find_sub pat [] = (if pat = [] then Some ([], []) else None)"
| "find_sub pat (c # cs) =
     (if take (length pat) (c # cs) = pat then Some ([], drop (length pat) (c # cs))
      else map_option (\<lambda>(b, a). (c # b, a)) (find_sub pat cs))"

text \<open>The replacement text of \<^verbatim>\<open>replace\<close> with a string pattern: \<^verbatim>\<open>$$\<close> is a dollar, \<^verbatim>\<open>$&\<close>
  the match, \<^verbatim>\<open>$`\<close> what precedes it and \<^verbatim>\<open>$'\<close> what follows; there are no captures, so
  every other dollar stands for itself.\<close>

fun expand_replacement :: "string \<Rightarrow> string \<Rightarrow> string \<Rightarrow> string \<Rightarrow> string" where
  "expand_replacement m b a [] = []"
| "expand_replacement m b a [c] = [c]"
| "expand_replacement m b a (c # d # r) =
     (if c = CHR ''$'' \<and> d = CHR ''$'' then c # expand_replacement m b a r
      else if c = CHR ''$'' \<and> d = CHR ''&'' then m @ expand_replacement m b a r
      else if c = CHR ''$'' \<and> d = CHR 0x60 then b @ expand_replacement m b a r
      else if c = CHR ''$'' \<and> d = CHR 0x27 then a @ expand_replacement m b a r
      else c # expand_replacement m b a (d # r))"

definition js_replace :: "string \<Rightarrow> string \<Rightarrow> string \<Rightarrow> string" where
  "js_replace s pat repl =
     (case find_sub pat s of
        None \<Rightarrow> s
      | Some (b, a) \<Rightarrow> b @ expand_replacement pat b a repl @ a)"

section \<open>HTTP, the database and the outside world\<close>

text \<open>An HTTP exchange as axios sees it. \<open>NoReply\<close> is a request that got no response: a
  timeout or a transport failure. Every request is taken to settle; one that is never
  answered and has no timeout is not modelled. axios fulfils the promise of a request with the response
  when its status is in \<open>200..299\<close> and rejects it otherwise; the error of a rejection
  carries the response when there was one (\<^verbatim>\<open>error.response\<close>). The handler relies on both:
  it tests \<^verbatim>\<open>response.status == 200\<close> on a fulfilled creation and
  \<^verbatim>\<open>error.response.status == 403\<close> on a rejected fetch.\<close>

record response =
  status :: nat
  data :: jsval

datatype wire = NoReply | Reply nat jsval

record request =
  meth :: string
  baseURL :: string
  url :: string
  params :: "(string \<times> string) list"
  headers :: "(string \<times> jsval) list"
  body :: jsval
  timeout :: "nat option"

text \<open>What a promise of the handler can be rejected with: an axios error, a TypeError
  thrown inside a callback, the string of \<^verbatim>\<open>checkAccessAndProvision\<close>, a response passed to
  \<^verbatim>\<open>Promise.reject\<close>, or a database error.\<close>

datatype err =
    AxiosError "response option"
  | TypeError
  | Message string
  | ResponseErr response
  | DbError

datatype 'a promise = Fulfilled 'a | Rejected err | Pending

text \<open>
  Modelled from the spec: the ThreadMappingStore. The sequelize models behind
  \<^verbatim>\<open>db.topics\<close> and \<^verbatim>\<open>db.referenceLookups\<close> are not among the source files; the columns are
  the ones the handler builds a row with (\<^verbatim>\<open>reference\<close>, \<^verbatim>\<open>referenceId\<close>,
  \<^verbatim>\<open>discourseTopicId\<close> and the four audit fields), and a lookup row is the spec's
  AuthorizationRoute (reference type, endpoint template).
\<close>

record topic =
  reference :: string
  referenceId :: string
  discourseTopicId :: jsval
  createdAt :: nat
  createdBy :: string
  updatedAt :: nat
  updatedBy :: string

record referenceLookup =
  lookupReference :: string
  endpoint :: string

text \<open>Everything the handler does to the outside world is recorded in order: the two
  database reads, the database write with whether it succeeded, and every HTTP request with
  the call that sent it and what came back.\<close>

datatype operation =
    EntitlementCheck
  | MemberLookup
  | GetUser
  | CreateUser
  | CreatePrivatePost
  | GetTopic
  | GrantAccess

datatype event =
    TopicsFindAll "(string \<times> string) list"
  | ReferenceLookupsFindOne jsval
  | TopicSave topic bool
  | Http operation request wire

text \<open>The outside world answers as a function of what has happened so far, so the same
  request can be answered differently the second time (a fetch that is forbidden before an
  invitation and allowed after it). \<open>db_ok\<close> says whether the next database operation
  succeeds, \<open>newDate\<close> is the clock (the second argument counts the readings within one
  step).\<close>

record env =
  http :: "event list \<Rightarrow> request \<Rightarrow> wire"
  db_ok :: "event list \<Rightarrow> bool"
  newDate :: "event list \<Rightarrow> nat \<Rightarrow> nat"

record state =
  topics :: "topic list"
  referenceLookups :: "referenceLookup list"
  events :: "event list"

text \<open>The \<^verbatim>\<open>config\<close> module and \<^verbatim>\<open>util.isDiscourseAdmin\<close> (\<^verbatim>\<open>../util\<close> is not among the
  source files) are parameters.\<close>

record config =
  memberServiceUrl :: string
  defaultDiscoursePw :: string
  discourseURL :: string
  discourseApiKey :: string
  discourseSystemUsername :: string
  isDiscourseAdmin :: "string \<Rightarrow> bool"

text \<open>What the handler reads of the express request. It reads the token for the entitlement
  check from \<^verbatim>\<open>req.header.authorization\<close> and the one for the member service from
  \<^verbatim>\<open>req.headers.authorization\<close>; the two are separate inputs (\<^verbatim>\<open>req.header\<close> is express's
  accessor function, so under express the first one is \<^verbatim>\<open>undefined\<close>).\<close>

record express_req =
  query_filter :: jsval
  header_authorization :: jsval
  headers_authorization :: jsval
  authUser_handle :: string

definition axios_settle :: "wire \<Rightarrow> response promise" where
  "axios_settle w =
     (case w of
        NoReply \<Rightarrow> Rejected (AxiosError None)
      | Reply st d \<Rightarrow>
          if 200 \<le> st \<and> st < 300 then Fulfilled \<lparr>status = st, data = d\<rparr>
          else Rejected (AxiosError (Some \<lparr>status = st, data = d\<rparr>)))"

text \<open>Sending a request: the world answers, the exchange is recorded under the operation
  \<open>op\<close> that sent it, and axios settles the promise.\<close>

definition axios :: "env \<Rightarrow> operation \<Rightarrow> request \<Rightarrow> state \<Rightarrow> response promise \<times> state" where
  "axios env op rq s =
     (let w = http env (events s) rq
      in (axios_settle w, s\<lparr>events := events s @ [Http op rq w]\<rparr>))"

subsection \<open>The mapping store\<close>

definition topic_columns :: "string list" where
  "topic_columns = [''reference'', ''referenceId'', ''discourseTopicId'', ''createdAt'',
     ''createdBy'', ''updatedAt'', ''updatedBy'']"

definition topic_column :: "topic \<Rightarrow> string \<Rightarrow> string option" where
  "topic_column t k =
     (if k = ''reference'' then Some (reference t)
      else if k = ''referenceId'' then Some (referenceId t)
      else if k = ''discourseTopicId'' then Some (ToString (discourseTopicId t))
      else if k = ''createdAt'' then Some (show_nat (createdAt t))
      else if k = ''createdBy'' then Some (createdBy t)
      else if k = ''updatedAt'' then Some (show_nat (updatedAt t))
      else if k = ''updatedBy'' then Some (updatedBy t)
      else None)"

definition row_matches :: "(string \<times> string) list \<Rightarrow> topic \<Rightarrow> bool" where
  "row_matches flt t = list_all (\<lambda>(k, v). topic_column t k = Some v) flt"

text \<open>\<^verbatim>\<open>topicLookupExists\<close>: \<^verbatim>\<open>db.topics.findAll({where: filter})\<close>. The rows whose columns
  equal the filter's values, in the order they were saved; a filter key that is no column
  is an SQL error.\<close>

definition topicLookupExists ::
  "env \<Rightarrow> state \<Rightarrow> (string \<times> string) list \<Rightarrow> topic list promise \<times> state" where
  "topicLookupExists env s flt =
     (let s1 = s\<lparr>events := events s @ [TopicsFindAll flt]\<rparr>
      in if \<not> db_ok env (events s) then (Rejected DbError, s1)
         else if \<not> list_all (\<lambda>(k, v). k \<in> set topic_columns) flt then (Rejected DbError, s1)
         else (Fulfilled (filter (row_matches flt) (topics s)), s1))"

text \<open>\<^verbatim>\<open>db.referenceLookups.findOne({where: {reference: reference}})\<close>: the first row of
  that reference type, or none.\<close>

definition referenceLookups_findOne ::
  "env \<Rightarrow> state \<Rightarrow> jsval \<Rightarrow> referenceLookup option promise \<times> state" where
  "referenceLookups_findOne env s ref =
     (let s1 = s\<lparr>events := events s @ [ReferenceLookupsFindOne ref]\<rparr>
      in if \<not> db_ok env (events s) then (Rejected DbError, s1)
         else (Fulfilled (find (\<lambda>r. JStr (lookupReference r) = ref) (referenceLookups s)), s1))"

text \<open>\<^verbatim>\<open>pgTopic.save()\<close>: the row is appended when the write succeeds.\<close>

definition pgTopic_save :: "env \<Rightarrow> state \<Rightarrow> topic \<Rightarrow> unit promise \<times> state" where
  "pgTopic_save env s pgTopic =
     (let ok = db_ok env (events s)
      in (if ok then Fulfilled () else Rejected DbError,
          s\<lparr>topics := (if ok then topics s @ [pgTopic] else topics s),
            events := events s @ [TopicSave pgTopic ok]\<rparr>))"

section \<open>The Discourse client\<close>

text \<open>The object \<^verbatim>\<open>Discourse(logger)\<close> returns, as far as the handler uses it: each operation
  is the request it sends. The client's default parameters carry the API key and the system
  user name; parameters given with a request are merged over them.\<close>

definition client_defaults :: "config \<Rightarrow> (string \<times> string) list" where
  "client_defaults cfg =
     [(''api_key'', discourseApiKey cfg), (''api_username'', discourseSystemUsername cfg)]"

definition merge_params ::
  "(string \<times> string) list \<Rightarrow> (string \<times> string) list \<Rightarrow> (string \<times> string) list" where
  "merge_params defaults given = fold (\<lambda>(k, v). AList.update k v) given defaults"

text \<open>\<open>createUser_request\<close> is \<open>None\<close> when the call throws before it sends anything.\<close>

record gateway =
  getUser_request :: "string \<Rightarrow> request"
  createUser_request :: "string \<Rightarrow> jsval \<Rightarrow> jsval \<Rightarrow> string \<Rightarrow> request option"
  createPrivatePost_request :: "string \<Rightarrow> string \<Rightarrow> string \<Rightarrow> string option \<Rightarrow> request"
  getTopic_request :: "jsval \<Rightarrow> string \<Rightarrow> request"
  grantAccess_request :: "string \<Rightarrow> jsval \<Rightarrow> request"

subsection \<open>The client that takes the logger (\<^verbatim>\<open>src/unnamed/part_000\<close>)\<close>

definition getUser :: "config \<Rightarrow> string \<Rightarrow> request" where
  "getUser cfg username =
     \<lparr>meth = ''GET'', baseURL = discourseURL cfg,
      url = ''/users/'' @ username @ ''.json?api_username='' @ username,
      params = client_defaults cfg, headers = [], body = JUndefined, timeout = None\<rparr>"

definition createUser ::
  "config \<Rightarrow> jsval \<Rightarrow> jsval \<Rightarrow> jsval \<Rightarrow> jsval \<Rightarrow> jsval \<Rightarrow> request" where
  "createUser cfg name userId handle email password =
     \<lparr>meth = ''POST'', baseURL = discourseURL cfg, url = ''/users'',
      params = client_defaults cfg, headers = [],
      body = JObj [(''name'', name), (''username'', userId), (''email'', email),
                   (''password'', password), (''active'', JBool True),
                   (''user_fields'', JObj [(''1'', handle)])],
      timeout = None\<rparr>"

text \<open>\<^verbatim>\<open>owner && !util.isDiscourseAdmin(owner) ? owner : DISCOURSE_SYSTEM_USERNAME\<close>; an
  owner that is not passed is \<^verbatim>\<open>undefined\<close> (\<open>None\<close>).\<close>

definition createPrivatePost ::
  "config \<Rightarrow> string \<Rightarrow> string \<Rightarrow> string \<Rightarrow> string option \<Rightarrow> request" where
  "createPrivatePost cfg title post users owner =
     \<lparr>meth = ''POST'', baseURL = discourseURL cfg, url = ''/posts'',
      params = merge_params (client_defaults cfg)
        [(''api_username'',
          (case owner of
             None \<Rightarrow> discourseSystemUsername cfg
           | Some ow \<Rightarrow>
               if ow \<noteq> [] \<and> \<not> isDiscourseAdmin cfg ow then ow
               else discourseSystemUsername cfg))],
      headers = [],
      body = JObj [(''archetype'', JStr ''private_message''), (''target_usernames'', JStr users),
                   (''title'', JStr title), (''raw'', JStr post)],
      timeout = None\<rparr>"

definition getTopic :: "config \<Rightarrow> jsval \<Rightarrow> string \<Rightarrow> request" where
  "getTopic cfg topicId username =
     \<lparr>meth = ''GET'', baseURL = discourseURL cfg, url = ''/t/'' @ ToString topicId @ ''.json'',
      params = merge_params (client_defaults cfg)
        [(''api_username'',
          if isDiscourseAdmin cfg username then discourseSystemUsername cfg else username)],
      headers = [], body = JUndefined, timeout = None\<rparr>"

definition grantAccess :: "config \<Rightarrow> string \<Rightarrow> jsval \<Rightarrow> request" where
  "grantAccess cfg userName topicId =
     \<lparr>meth = ''POST'', baseURL = discourseURL cfg,
      url = ''/t/'' @ ToString topicId @ ''/invite'',
      params = client_defaults cfg, headers = [],
      body = JObj [(''user'', JStr userName)], timeout = None\<rparr>"

text \<open>The handler calls \<^verbatim>\<open>createUser(name, handle, email, password)\<close> with four arguments;
  this client's parameters are \<^verbatim>\<open>(name, userId, handle, email, password, photoUrl)\<close>, so the
  arguments land one place off and \<^verbatim>\<open>password\<close> is \<^verbatim>\<open>undefined\<close>.\<close>

definition Discourse :: "config \<Rightarrow> gateway" where
  "Discourse cfg =
     \<lparr>getUser_request = getUser cfg,
      createUser_request = (\<lambda>a1 a2 a3 a4. Some (createUser cfg (JStr a1) a2 a3 (JStr a4) JUndefined)),
      createPrivatePost_request = createPrivatePost cfg,
      getTopic_request = getTopic cfg,
      grantAccess_request = grantAccess cfg\<rparr>"

subsection \<open>The client without the logger (\<^verbatim>\<open>src/unnamed/part_001\<close>)\<close>

text \<open>Here \<^verbatim>\<open>createUser\<close> takes the logger as its first argument and calls
  \<^verbatim>\<open>logger.debug\<close> before it posts; called with a value that has no such method it throws a
  TypeError.\<close>

datatype logger_arg = Logger | NotALogger jsval

definition createUser_001 ::
  "config \<Rightarrow> logger_arg \<Rightarrow> jsval \<Rightarrow> jsval \<Rightarrow> jsval \<Rightarrow> jsval \<Rightarrow> request option" where
  "createUser_001 cfg logger name username email password =
     (case logger of
        NotALogger v \<Rightarrow> None
      | Logger \<Rightarrow>
          Some \<lparr>meth = ''POST'', baseURL = discourseURL cfg, url = ''/users'',
                params = client_defaults cfg, headers = [],
                body = JObj [(''name'', name), (''username'', username), (''email'', email),
                             (''password'', password), (''active'', JBool True)],
                timeout = None\<rparr>)"

definition createPrivatePost_001 ::
  "config \<Rightarrow> string \<Rightarrow> string \<Rightarrow> string \<Rightarrow> string option \<Rightarrow> request" where
  "createPrivatePost_001 cfg title post users owner =
     \<lparr>meth = ''POST'', baseURL = discourseURL cfg, url = ''/posts'',
      params = merge_params (client_defaults cfg)
        [(''archetype'', ''private_message''), (''target_usernames'', users),
         (''api_username'',
          (case owner of
             None \<Rightarrow> discourseSystemUsername cfg
           | Some ow \<Rightarrow> if ow \<noteq> [] then ow else discourseSystemUsername cfg)),
         (''title'', title), (''raw'', post)],
      headers = [], body = JObj [], timeout = None\<rparr>"

definition getTopic_001 :: "config \<Rightarrow> jsval \<Rightarrow> string \<Rightarrow> request" where
  "getTopic_001 cfg topicId username =
     \<lparr>meth = ''GET'', baseURL = discourseURL cfg,
      url = ''/t/'' @ ToString topicId @ ''.json?api_username='' @ username,
      params = client_defaults cfg, headers = [], body = JUndefined, timeout = None\<rparr>"

definition Discourse_001 :: "config \<Rightarrow> gateway" where
  "Discourse_001 cfg =
     \<lparr>getUser_request = getUser cfg,
      createUser_request =
        (\<lambda>a1 a2 a3 a4. createUser_001 cfg (NotALogger (JStr a1)) a2 a3 (JStr a4) JUndefined),
      createPrivatePost_request = createPrivatePost_001 cfg,
      getTopic_request = getTopic_001 cfg,
      grantAccess_request = grantAccess cfg\<rparr>"

section \<open>The handler\<close>

subsection \<open>The filter\<close>

text \<open>The filter is a JavaScript object used as a dictionary: assigning an existing key
  overwrites its value, and assigning a string to the key \<^verbatim>\<open>__proto__\<close> creates no
  property. The order of the keys is not observed.\<close>

definition filter_set ::
  "(string \<times> string) list \<Rightarrow> string \<Rightarrow> string \<Rightarrow> (string \<times> string) list" where
  "filter_set flt k v = (if k = ''__proto__'' then flt else AList.update k v flt)"

definition filter_prop :: "(string \<times> string) list \<Rightarrow> string \<Rightarrow> jsval" where
  "filter_prop flt k = (case map_of flt k of None \<Rightarrow> JUndefined | Some v \<Rightarrow> JStr v)"

text \<open>The loop over the segments of \<^verbatim>\<open>(req.query.filter || '').split('&')\<close>.\<close>

definition parseFilter :: "string \<Rightarrow> (string \<times> string) list" where
  "parseFilter q =
     foldl (\<lambda>flt value. case split_on CHR ''='' value of
                            [k, v] \<Rightarrow> filter_set flt k v
                          | _ \<Rightarrow> flt)
       [] (split_on CHR ''&'' q)"

subsection \<open>userHasAccessToEntity\<close>

definition entitlement_request :: "string \<Rightarrow> jsval \<Rightarrow> jsval \<Rightarrow> request" where
  "entitlement_request endpointTemplate authToken refId =
     \<lparr>meth = ''GET'', baseURL = [],
      url = js_replace endpointTemplate ''{id}'' (ToString refId),
      params = [],
      headers = [(''X-Request-Id'', JStr ''123''),
                 (''Authorization'', JStr (''Bearer '' @ ToString authToken)),
                 (''Accept'', JStr ''application/json''),
                 (''Content-Type'', JStr ''application/json'')],
      body = JUndefined, timeout = Some 3000\<rparr>"

text \<open>The condition of the success callback:
  \<^verbatim>\<open>response.data && response.data.result && response.data.result.status == 200
  && response.data.result.content\<close>.\<close>

definition grants :: "response \<Rightarrow> bool" where
  "grants response =
     (truthy (data response)
      \<and> truthy (get_prop (data response) ''result'')
      \<and> loose_eq_num (get_prop (get_prop (data response) ''result'') ''status'') 200
      \<and> truthy (get_prop (get_prop (data response) ''result'') ''content''))"

text \<open>The promise resolves \<^verbatim>\<open>true\<close> when no lookup row is found, the callback's verdict
  when the endpoint's response is fulfilled, and \<^verbatim>\<open>false\<close> when the request is rejected.
  The lookup has no rejection handler: when it fails the promise never settles.\<close>

definition userHasAccessToEntity ::
  "env \<Rightarrow> state \<Rightarrow> jsval \<Rightarrow> jsval \<Rightarrow> jsval \<Rightarrow> bool promise \<times> state" where
  "userHasAccessToEntity env s authToken ref refId =
     (case referenceLookups_findOne env s ref of
        (Fulfilled None, s1) \<Rightarrow> (Fulfilled True, s1)
      | (Fulfilled (Some referenceLookup), s1) \<Rightarrow>
          (case axios env EntitlementCheck
                  (entitlement_request (endpoint referenceLookup) authToken refId) s1 of
             (Fulfilled response, s2) \<Rightarrow> (Fulfilled (grants response), s2)
           | (Rejected error, s2) \<Rightarrow> (Fulfilled False, s2)
           | (Pending, s2) \<Rightarrow> (Pending, s2))
      | (Rejected error, s1) \<Rightarrow> (Pending, s1)
      | (Pending, s1) \<Rightarrow> (Pending, s1))"

subsection \<open>getTopcoderUser\<close>

definition member_request :: "config \<Rightarrow> jsval \<Rightarrow> string \<Rightarrow> request" where
  "member_request cfg authToken handle =
     \<lparr>meth = ''GET'', baseURL = [],
      url = memberServiceUrl cfg @ ''/'' @ handle,
      params = [],
      headers = [(''Authorization'', authToken),
                 (''Accept'', JStr ''application/json''),
                 (''Content-Type'', JStr ''application/json'')],
      body = JUndefined, timeout = None\<rparr>"

text \<open>\<^verbatim>\<open>resolve(response.data.result.content)\<close>; a TypeError of that expression is caught
  and rejects the promise.\<close>

definition getTopcoderUser ::
  "env \<Rightarrow> config \<Rightarrow> state \<Rightarrow> jsval \<Rightarrow> string \<Rightarrow> jsval promise \<times> state" where
  "getTopcoderUser env cfg s authToken handle =
     (case axios env MemberLookup (member_request cfg authToken handle) s of
        (Fulfilled response, s1) \<Rightarrow>
          if nullish (data response) \<or> nullish (get_prop (data response) ''result'')
          then (Rejected TypeError, s1)
          else (Fulfilled (get_prop (get_prop (data response) ''result'') ''content''), s1)
      | (Rejected error, s1) \<Rightarrow> (Rejected error, s1)
      | (Pending, s1) \<Rightarrow> (Pending, s1))"

subsection \<open>checkAccessAndProvision\<close>

text \<open>The creation of the forum user, once the member service has answered with \<open>user\<close>.\<close>

definition provisionUser ::
  "gateway \<Rightarrow> env \<Rightarrow> config \<Rightarrow> state \<Rightarrow> jsval \<Rightarrow> jsval promise \<times> state" where
  "provisionUser dc env cfg s user =
     (if nullish user then (Rejected TypeError, s)
      else
        (case createUser_request dc
                (ToString (get_prop user ''firstName'') @ '' '' @ ToString (get_prop user ''lastName''))
                (get_prop user ''handle'') (get_prop user ''email'') (defaultDiscoursePw cfg) of
           None \<Rightarrow> (Rejected TypeError, s)
         | Some rq \<Rightarrow>
             (case axios env CreateUser rq s of
                (Fulfilled result, s1) \<Rightarrow>
                  if nullish (data result) then (Rejected TypeError, s1)
                  else if truthy (get_prop (data result) ''success'') then (Fulfilled (data result), s1)
                  else (Rejected (ResponseErr result), s1)
              | (Rejected error, s1) \<Rightarrow> (Rejected error, s1)
              | (Pending, s1) \<Rightarrow> (Pending, s1))))"

text \<open>\<^verbatim>\<open>discourseClient.getUser\<close> resolves with \<^verbatim>\<open>response.data\<close>; whatever it is rejected
  with, the handler goes on to the member service and the creation.\<close>

definition ensureUser ::
  "gateway \<Rightarrow> env \<Rightarrow> config \<Rightarrow> state \<Rightarrow> express_req \<Rightarrow> jsval promise \<times> state" where
  "ensureUser dc env cfg s req =
     (case axios env GetUser (getUser_request dc (authUser_handle req)) s of
        (Fulfilled response, s1) \<Rightarrow> (Fulfilled (data response), s1)
      | (Pending, s1) \<Rightarrow> (Pending, s1)
      | (Rejected error, s1) \<Rightarrow>
          (case getTopcoderUser env cfg s1 (headers_authorization req) (authUser_handle req) of
             (Fulfilled user, s2) \<Rightarrow> provisionUser dc env cfg s2 user
           | (Rejected error2, s2) \<Rightarrow> (Rejected error2, s2)
           | (Pending, s2) \<Rightarrow> (Pending, s2)))"

definition checkAccessAndProvision ::
  "gateway \<Rightarrow> env \<Rightarrow> config \<Rightarrow> state \<Rightarrow> express_req \<Rightarrow> (string \<times> string) list
     \<Rightarrow> jsval promise \<times> state" where
  "checkAccessAndProvision dc env cfg s req flt =
     (case userHasAccessToEntity env s (header_authorization req)
             (filter_prop flt ''reference'') (filter_prop flt ''referenceId'') of
        (Fulfilled hasAccess, s1) \<Rightarrow>
          if \<not> hasAccess then (Rejected (Message ''User doesn't have access to entity''), s1)
          else ensureUser dc env cfg s1 req
      | (Rejected error, s1) \<Rightarrow> (Rejected error, s1)
      | (Pending, s1) \<Rightarrow> (Pending, s1))"

subsection \<open>The request handler\<close>

text \<open>What the promise chain carries to the final callback: on the creation path the axios
  response of the post, on the fetch path the topic document (\<^verbatim>\<open>getTopic\<close> resolves with
  \<^verbatim>\<open>response.data\<close>).\<close>

datatype topic_result = AxiosResponse response | TopicDoc jsval

datatype outcome = Responded nat jsval | Threw | NoResponse

definition discussion_title :: "(string \<times> string) list \<Rightarrow> string" where
  "discussion_title flt =
     ''Discussion for '' @ ToString (filter_prop flt ''reference'') @ '' ''
       @ ToString (filter_prop flt ''referenceId'')"

text \<open>The branch \<^verbatim>\<open>result.length === 0\<close>: check access and provision, create the private
  post, and save the mapping when the creation's status is 200.\<close>

definition topicMissing ::
  "gateway \<Rightarrow> env \<Rightarrow> config \<Rightarrow> state \<Rightarrow> express_req \<Rightarrow> (string \<times> string) list
     \<Rightarrow> topic_result promise \<times> state" where
  "topicMissing dc env cfg s req flt =
     (case checkAccessAndProvision dc env cfg s req flt of
        (Fulfilled discourseUser, s1) \<Rightarrow>
          (case axios env CreatePrivatePost
                  (createPrivatePost_request dc (discussion_title flt) (discussion_title flt)
                     (authUser_handle req) None) s1 of
             (Fulfilled response, s2) \<Rightarrow>
               if status response = 200 then
                 if nullish (data response) then (Rejected TypeError, s2)
                 else
                   (case pgTopic_save env s2
                           \<lparr>reference = ToString (filter_prop flt ''reference''),
                            referenceId = ToString (filter_prop flt ''referenceId''),
                            discourseTopicId = get_prop (data response) ''topic_id'',
                            createdAt = newDate env (events s2) 0,
                            createdBy = authUser_handle req,
                            updatedAt = newDate env (events s2) 1,
                            updatedBy = authUser_handle req\<rparr> of
                      (Fulfilled saved, s3) \<Rightarrow> (Fulfilled (AxiosResponse response), s3)
                    | (Rejected error, s3) \<Rightarrow> (Rejected error, s3)
                    | (Pending, s3) \<Rightarrow> (Pending, s3))
               else (Rejected (ResponseErr response), s2)
           | (Rejected error, s2) \<Rightarrow> (Rejected error, s2)
           | (Pending, s2) \<Rightarrow> (Pending, s2))
      | (Rejected error, s1) \<Rightarrow> (Rejected error, s1)
      | (Pending, s1) \<Rightarrow> (Pending, s1))"

text \<open>\<^verbatim>\<open>discourseClient.getTopic(topicId, handle)\<close> as the handler sees it.\<close>

definition fetchTopic ::
  "gateway \<Rightarrow> env \<Rightarrow> state \<Rightarrow> jsval \<Rightarrow> string \<Rightarrow> topic_result promise \<times> state" where
  "fetchTopic dc env s topicId handle =
     (case axios env GetTopic (getTopic_request dc topicId handle) s of
        (Fulfilled response, s1) \<Rightarrow> (Fulfilled (TopicDoc (data response)), s1)
      | (Rejected error, s1) \<Rightarrow> (Rejected error, s1)
      | (Pending, s1) \<Rightarrow> (Pending, s1))"

text \<open>The 403 branch of the fetch's rejection handler: check access and provision, grant
  access, fetch again. The second fetch has no rejection handler of its own.\<close>

definition grantAndRefetch ::
  "gateway \<Rightarrow> env \<Rightarrow> config \<Rightarrow> state \<Rightarrow> express_req \<Rightarrow> (string \<times> string) list \<Rightarrow> topic
     \<Rightarrow> topic_result promise \<times> state" where
  "grantAndRefetch dc env cfg s req flt pgTopic =
     (case checkAccessAndProvision dc env cfg s req flt of
        (Fulfilled discourseUser, s1) \<Rightarrow>
          (case axios env GrantAccess
                  (grantAccess_request dc (authUser_handle req) (discourseTopicId pgTopic)) s1 of
             (Fulfilled granted, s2) \<Rightarrow>
               fetchTopic dc env s2 (discourseTopicId pgTopic) (authUser_handle req)
           | (Rejected error, s2) \<Rightarrow> (Rejected error, s2)
           | (Pending, s2) \<Rightarrow> (Pending, s2))
      | (Rejected error, s1) \<Rightarrow> (Rejected error, s1)
      | (Pending, s1) \<Rightarrow> (Pending, s1))"

text \<open>The branch of an existing mapping: fetch the topic; in the rejection handler,
  \<^verbatim>\<open>error.response.status == 403\<close> throws a TypeError when the error carries no response.\<close>

definition topicExists ::
  "gateway \<Rightarrow> env \<Rightarrow> config \<Rightarrow> state \<Rightarrow> express_req \<Rightarrow> (string \<times> string) list \<Rightarrow> topic
     \<Rightarrow> topic_result promise \<times> state" where
  "topicExists dc env cfg s req flt pgTopic =
     (case fetchTopic dc env s (discourseTopicId pgTopic) (authUser_handle req) of
        (Fulfilled response, s1) \<Rightarrow> (Fulfilled response, s1)
      | (Rejected (AxiosError (Some r)), s1) \<Rightarrow>
          if status r = 403 then grantAndRefetch dc env cfg s1 req flt pgTopic
          else (Rejected (AxiosError (Some r)), s1)
      | (Rejected error, s1) \<Rightarrow> (Rejected TypeError, s1)
      | (Pending, s1) \<Rightarrow> (Pending, s1))"

definition error_fetching_topic :: jsval where
  "error_fetching_topic = JObj [(''message'', JStr ''Error fetching topic!'')]"

definition missing_filter_message :: jsval where
  "missing_filter_message =
     JObj [(''message'', JStr ''Please provide reference and referenceId filter parameters'')]"

text \<open>The last two callbacks of the chain: \<^verbatim>\<open>resp.status(200).send(topic.data)\<close>, and the
  500 for every rejection (also for the TypeError of \<^verbatim>\<open>topic.data\<close> on a nullish topic).\<close>

definition respond :: "topic_result promise \<Rightarrow> outcome" where
  "respond p =
     (case p of
        Fulfilled (AxiosResponse response) \<Rightarrow> Responded 200 (data response)
      | Fulfilled (TopicDoc topic) \<Rightarrow>
          if nullish topic then Responded 500 error_fetching_topic
          else Responded 200 (get_prop topic ''data'')
      | Rejected error \<Rightarrow> Responded 500 error_fetching_topic
      | Pending \<Rightarrow> NoResponse)"

text \<open>\<^verbatim>\<open>(req.query.filter || '').split('&')\<close>: a truthy filter that is not a string has no
  \<^verbatim>\<open>split\<close>, and the handler throws.\<close>

definition query_string :: "jsval \<Rightarrow> string option" where
  "query_string v =
     (if \<not> truthy v then Some []
      else (case v of JStr q \<Rightarrow> Some q | _ \<Rightarrow> None))"

definition orchestrate ::
  "gateway \<Rightarrow> env \<Rightarrow> config \<Rightarrow> state \<Rightarrow> express_req \<Rightarrow> (string \<times> string) list
     \<Rightarrow> outcome \<times> state" where
  "orchestrate dc env cfg s req flt =
     (case topicLookupExists env s flt of
        (Fulfilled result, s1) \<Rightarrow>
          (case result of
             [] \<Rightarrow> (case topicMissing dc env cfg s1 req flt of (p, s2) \<Rightarrow> (respond p, s2))
           | pgTopic # others \<Rightarrow>
               (case topicExists dc env cfg s1 req flt pgTopic of (p, s2) \<Rightarrow> (respond p, s2)))
      | (Rejected error, s1) \<Rightarrow> (Responded 500 error_fetching_topic, s1)
      | (Pending, s1) \<Rightarrow> (NoResponse, s1))"

definition handler ::
  "gateway \<Rightarrow> env \<Rightarrow> config \<Rightarrow> state \<Rightarrow> express_req \<Rightarrow> outcome \<times> state" where
  "handler dc env cfg s req =
     (case query_string (query_filter req) of
        None \<Rightarrow> (Threw, s)
      | Some q \<Rightarrow>
          (let flt = parseFilter q
           in if \<not> truthy (filter_prop flt ''reference'')
                 \<or> \<not> truthy (filter_prop flt ''referenceId'')
              then (Responded 400 missing_filter_message, s)
              else orchestrate dc env cfg s req flt))"

section \<open>Observing a run\<close>

text \<open>A run is observed through the events it appends. \<open>emit s new\<close> is the state \<open>s\<close>
  after the events \<open>new\<close>; \<open>steps\<close> forgets everything about an event but what kind of call
  it was.\<close>

definition emit :: "state \<Rightarrow> event list \<Rightarrow> state" where
  "emit s new = s\<lparr>events := events s @ new\<rparr>"

datatype step = LookupTopic | LookupRoute | SaveTopic | Call operation

fun step_of :: "event \<Rightarrow> step" where
  "step_of (TopicsFindAll flt) = LookupTopic"
| "step_of (ReferenceLookupsFindOne r) = LookupRoute"
| "step_of (TopicSave t ok) = SaveTopic"
| "step_of (Http op rq w) = Call op"

definition steps :: "event list \<Rightarrow> step list" where
  "steps new = map step_of new"

text \<open>The three things axios makes of an exchange: whether the promise is fulfilled, the
  response it is fulfilled with, and the error it is rejected with.\<close>

definition accepted :: "wire \<Rightarrow> bool" where
  "accepted w = (case w of NoReply \<Rightarrow> False | Reply st d \<Rightarrow> 200 \<le> st \<and> st < 300)"

definition answer :: "wire \<Rightarrow> response" where
  "answer w =
     (case w of
        NoReply \<Rightarrow> \<lparr>status = 0, data = JUndefined\<rparr>
      | Reply st d \<Rightarrow> \<lparr>status = st, data = d\<rparr>)"

definition rejection :: "wire \<Rightarrow> err" where
  "rejection w =
     AxiosError (case w of NoReply \<Rightarrow> None | Reply st d \<Rightarrow> Some \<lparr>status = st, data = d\<rparr>)"

text \<open>The requests a run for the request \<open>req\<close> with the filter \<open>flt\<close> sends, operation by
  operation; \<open>tid\<close> is the topic id of the mapping it found (no fetch or grant is sent when
  it found none). The entitlement request is determined up to its URL, which comes from the
  route.\<close>

definition sent_for ::
  "gateway \<Rightarrow> config \<Rightarrow> express_req \<Rightarrow> (string \<times> string) list \<Rightarrow> jsval \<Rightarrow> event \<Rightarrow> bool" where
  "sent_for dc cfg req flt tid e =
     (case e of
        TopicsFindAll f \<Rightarrow> f = flt
      | ReferenceLookupsFindOne r \<Rightarrow> r = filter_prop flt ''reference''
      | TopicSave t ok \<Rightarrow> True
      | Http op rq w \<Rightarrow>
          (case op of
             EntitlementCheck \<Rightarrow>
               rq = (entitlement_request [] (header_authorization req)
                       (filter_prop flt ''referenceId''))\<lparr>url := url rq\<rparr>
           | MemberLookup \<Rightarrow>
               rq = member_request cfg (headers_authorization req) (authUser_handle req)
           | GetUser \<Rightarrow> rq = getUser_request dc (authUser_handle req)
           | CreateUser \<Rightarrow>
               (\<exists>a b c. createUser_request dc a b c (defaultDiscoursePw cfg) = Some rq)
           | CreatePrivatePost \<Rightarrow>
               rq = createPrivatePost_request dc (discussion_title flt) (discussion_title flt)
                      (authUser_handle req) None
           | GetTopic \<Rightarrow> rq = getTopic_request dc tid (authUser_handle req)
           | GrantAccess \<Rightarrow> rq = grantAccess_request dc (authUser_handle req) tid))"

text \<open>The calls of \<^verbatim>\<open>checkAccessAndProvision\<close>, in order, when it is fulfilled: the route
  lookup, the entitlement check when there is a route, the user lookup, and the member
  lookup and user creation when the user lookup failed. And the calls when it is rejected.\<close>

definition cap_steps_ok :: "step list list" where
  "cap_steps_ok =
     [[LookupRoute, Call GetUser],
      [LookupRoute, Call EntitlementCheck, Call GetUser],
      [LookupRoute, Call GetUser, Call MemberLookup, Call CreateUser],
      [LookupRoute, Call EntitlementCheck, Call GetUser, Call MemberLookup, Call CreateUser]]"

definition cap_steps_failed :: "step list list" where
  "cap_steps_failed =
     [[LookupRoute],
      [LookupRoute, Call EntitlementCheck],
      [LookupRoute, Call GetUser, Call MemberLookup],
      [LookupRoute, Call EntitlementCheck, Call GetUser, Call MemberLookup],
      [LookupRoute, Call GetUser, Call MemberLookup, Call CreateUser],
      [LookupRoute, Call EntitlementCheck, Call GetUser, Call MemberLookup, Call CreateUser]]"

text \<open>The calls of the 403 branch (\<open>grantAndRefetch\<close>) when it is fulfilled: those of a
  fulfilled \<^verbatim>\<open>checkAccessAndProvision\<close>, then the grant, then the one fetch. And the calls
  when it is rejected.\<close>

definition reconcile_steps_ok :: "step list list" where
  "reconcile_steps_ok = map (\<lambda>c. c @ [Call GrantAccess, Call GetTopic]) cap_steps_ok"

definition reconcile_steps_failed :: "step list list" where
  "reconcile_steps_failed =
     cap_steps_failed
     @ map (\<lambda>c. c @ [Call GrantAccess]) cap_steps_ok
     @ map (\<lambda>c. c @ [Call GrantAccess, Call GetTopic]) cap_steps_ok"

text \<open>The row the handler builds for the filter, the actor and a creation response; the two
  dates are the clock's.\<close>

definition built_row :: "express_req \<Rightarrow> (string \<times> string) list \<Rightarrow> jsval \<Rightarrow> nat \<Rightarrow> nat \<Rightarrow> topic" where
  "built_row req flt d ca ua =
     \<lparr>reference = ToString (filter_prop flt ''reference''),
      referenceId = ToString (filter_prop flt ''referenceId''),
      discourseTopicId = get_prop d ''topic_id'',
      createdAt = ca, createdBy = authUser_handle req,
      updatedAt = ua, updatedBy = authUser_handle req\<rparr>"

text \<open>The calls of the creation branch (\<open>topicMissing\<close>) when it is rejected.\<close>

definition create_steps_failed :: "step list list" where
  "create_steps_failed =
     cap_steps_failed
     @ map (\<lambda>c. c @ [Call CreatePrivatePost]) cap_steps_ok
     @ map (\<lambda>c. c @ [Call CreatePrivatePost, SaveTopic]) cap_steps_ok"

section \<open>The specification's own words\<close>


text \<open>The well-formed pairs of a filter string, in the order they stand in it: the
  \<^verbatim>\<open>&\<close>-separated segments that split into exactly two parts on \<^verbatim>\<open>=\<close>.\<close>

definition wellformed_pairs :: "string \<Rightarrow> (string \<times> string) list" where
  "wellformed_pairs q =
     concat (map (\<lambda>seg. case split_on CHR ''='' seg of [k, v] \<Rightarrow> [(k, v)] | _ \<Rightarrow> [])
                 (split_on CHR ''&'' q))"

text \<open>The forum identity a request is attributed to: its \<^verbatim>\<open>api_username\<close> parameter.\<close>

definition api_username :: "request \<Rightarrow> string option" where
  "api_username rq = map_of (params rq) ''api_username''"

text \<open>The attribution of the forum calls of a run for the actor \<open>h\<close>, as the client that
  takes the logger sends them: the fetch of a topic in the actor's name; the creation of the
  thread, the grant of access and the creation of the user in the system user's name; the
  user lookup with the actor's name in its URL and the system user's name as its parameter.\<close>

definition attributed :: "config \<Rightarrow> string \<Rightarrow> event \<Rightarrow> bool" where
  "attributed cfg h e =
     (case e of
        Http op rq w \<Rightarrow>
          (case op of
             GetTopic \<Rightarrow> api_username rq = Some h
           | CreatePrivatePost \<Rightarrow> api_username rq = Some (discourseSystemUsername cfg)
           | GrantAccess \<Rightarrow> api_username rq = Some (discourseSystemUsername cfg)
           | CreateUser \<Rightarrow> api_username rq = Some (discourseSystemUsername cfg)
           | GetUser \<Rightarrow>
               api_username rq = Some (discourseSystemUsername cfg)
               \<and> url rq = ''/users/'' @ h @ ''.json?api_username='' @ h
           | _ \<Rightarrow> True)
      | _ \<Rightarrow> True)"

section \<open>Concrete worlds\<close>

text \<open>A configuration, a store with one route (for projects) and no mapping, and the
  request of the actor \<^verbatim>\<open>bob\<close> for project 42.\<close>

definition demo_cfg :: config where
  "demo_cfg =
     \<lparr>memberServiceUrl = ''http://members'', defaultDiscoursePw = ''pw'',
      discourseURL = ''http://forum'', discourseApiKey = ''key'',
      discourseSystemUsername = ''system'', isDiscourseAdmin = (\<lambda>u. u = ''admin'')\<rparr>"

definition demo_state :: state where
  "demo_state =
     \<lparr>topics = [],
      referenceLookups = [\<lparr>lookupReference = ''project'', endpoint = ''http://auth/projects/{id}''\<rparr>],
      events = []\<rparr>"

definition demo_req :: express_req where
  "demo_req =
     \<lparr>query_filter = JStr ''reference=project&referenceId=42'',
      header_authorization = JUndefined,
      headers_authorization = JStr ''Bearer token'',
      authUser_handle = ''bob''\<rparr>"

definition granting :: jsval where
  "granting = JObj [(''result'', JObj [(''status'', JNum 200), (''content'', JObj [])])]"

text \<open>A world that answers by the URL of the request, whatever happened before, and whose
  database works; a URL it does not know gets no reply.\<close>

definition world :: "(string \<times> wire) list \<Rightarrow> env" where
  "world table =
     \<lparr>http = (\<lambda>h rq. case map_of table (url rq) of None \<Rightarrow> NoReply | Some w \<Rightarrow> w),
      db_ok = (\<lambda>h. True),
      newDate = (\<lambda>h k. 1000 + k)\<rparr>"


text \<open>A forum in which \<^verbatim>\<open>bob\<close> exists and every call succeeds; the thread it creates has
  the topic id 7.\<close>

definition forum_ok :: "(string \<times> wire) list" where
  "forum_ok =
     [(''http://auth/projects/42'', Reply 200 granting),
      (''/users/bob.json?api_username=bob'', Reply 200 (JObj [(''user'', JObj [(''username'', JStr ''bob'')])])),
      (''/posts'', Reply 200 (JObj [(''id'', JNum 1), (''topic_id'', JNum 7)])),
      (''/t/7.json'', Reply 200 (JObj [(''id'', JNum 7), (''title'', JStr ''Discussion for project 42'')])),
      (''/t/7/invite'', Reply 200 (JObj [(''success'', JStr ''OK'')]))]"

definition world_ok :: env where
  "world_ok = world forum_ok"

text \<open>The same forum, but the user lookup fails with \<open>st\<close>; the member service knows
  \<^verbatim>\<open>bob\<close> and the creation of the forum user succeeds.\<close>

definition world_no_user :: "nat \<Rightarrow> env" where
  "world_no_user st =
     world ([(''/users/bob.json?api_username=bob'', Reply st JNull),
             (''http://members/bob'',
              Reply 200 (JObj [(''result'', JObj [(''status'', JNum 200),
                 (''content'', JObj [(''handle'', JStr ''bob''), (''firstName'', JStr ''Bob''),
                                     (''lastName'', JStr ''Builder''),
                                     (''email'', JStr ''bob@example.com'')])])])),
             (''/users'', Reply 200 (JObj [(''success'', JBool True)]))]
            @ forum_ok)"

text \<open>The stored mapping of project 42 to topic 7, and the store that holds it.\<close>

definition mapping_7 :: topic where
  "mapping_7 =
     \<lparr>reference = ''project'', referenceId = ''42'', discourseTopicId = JNum 7,
      createdAt = 1000, createdBy = ''bob'', updatedAt = 1001, updatedBy = ''bob''\<rparr>"

definition mapped_state :: state where
  "mapped_state = demo_state\<lparr>topics := [mapping_7]\<rparr>"




text \<open>The forum of \<open>world_ok\<close> a moment later: the next thread it creates has the topic
  id 8.\<close>

definition world_next_thread :: env where
  "world_next_thread =
     world ((''/posts'', Reply 200 (JObj [(''id'', JNum 2), (''topic_id'', JNum 8)])) # forum_ok)"

text \<open>A forum that does not know \<^verbatim>\<open>bob\<close> (404) until a creation of a user has been
  answered.\<close>

definition was_created :: "event list \<Rightarrow> bool" where
  "was_created h =
     list_ex (\<lambda>e. case e of Http op rq w \<Rightarrow> op = CreateUser \<and> accepted w | _ \<Rightarrow> False) h"

definition world_user_on_demand :: env where
  "world_user_on_demand =
     (world_no_user 404)\<lparr>http := (\<lambda>h rq. if url rq = ''/users/bob.json?api_username=bob'' \<and> was_created h
                                         then Reply 200 (JObj [(''user'', JObj [(''username'', JStr ''bob'')])])
                                         else http (world_no_user 404) h rq)\<rparr>"

text \<open>The client of the handler, the filter of the request for project 42, and the state
  the first run for it leaves behind in \<open>world_ok\<close>.\<close>

definition demo_dc :: gateway where
  "demo_dc = Discourse demo_cfg"




section \<open>Facts about the model\<close>

lemma split_on_nonempty: "split_on c s \<noteq> []"
  by (induction s) (auto split: list.splits)

lemma emit_emit [simp]: "emit (emit s a) b = emit s (a @ b)"
  by (simp add: emit_def)

lemma emit_fields [simp]:
  "events (emit s a) = events s @ a" "topics (emit s a) = topics s"
  "referenceLookups (emit s a) = referenceLookups s"
  by (simp_all add: emit_def)

lemma emit_Nil [simp]: "emit s [] = s"
  by (simp add: emit_def)

lemma steps_simps [simp]:
  "steps [] = []" "steps (e # es) = step_of e # steps es" "steps (a @ b) = steps a @ steps b"
  by (simp_all add: steps_def)

lemma axios_settle_alt:
  "axios_settle w = (if accepted w then Fulfilled (answer w) else Rejected (rejection w))"
  by (simp add: axios_settle_def accepted_def answer_def rejection_def split: wire.splits)

lemma axios_alt:
  "axios env op rq s =
     (if accepted (http env (events s) rq) then Fulfilled (answer (http env (events s) rq))
      else Rejected (rejection (http env (events s) rq)),
      emit s [Http op rq (http env (events s) rq)])"
  by (simp add: axios_def emit_def Let_def axios_settle_alt)

lemma findOne_alt:
  "referenceLookups_findOne env s ref =
     (if \<not> db_ok env (events s) then Rejected DbError
      else Fulfilled (find (\<lambda>r. JStr (lookupReference r) = ref) (referenceLookups s)),
      emit s [ReferenceLookupsFindOne ref])"
  by (simp add: referenceLookups_findOne_def emit_def Let_def)

lemma findAll_alt:
  "topicLookupExists env s flt =
     (if \<not> db_ok env (events s) \<or> \<not> list_all (\<lambda>(k, v). k \<in> set topic_columns) flt
      then Rejected DbError
      else Fulfilled (filter (row_matches flt) (topics s)),
      emit s [TopicsFindAll flt])"
  by (simp add: topicLookupExists_def emit_def Let_def)

lemmas run_defs = userHasAccessToEntity_def getTopcoderUser_def provisionUser_def ensureUser_def
  findOne_alt axios_alt

lemma access_shape:
  assumes "userHasAccessToEntity env s (header_authorization req)
             (filter_prop flt ''reference'') (filter_prop flt ''referenceId'') = (p, s')"
  shows "\<exists>new. s' = emit s new
     \<and> steps new \<in> set [[LookupRoute], [LookupRoute, Call EntitlementCheck]]
     \<and> list_all (sent_for dc cfg req flt tid) new
     \<and> (\<forall>e. p \<noteq> Rejected e) \<and> (p = Pending \<longrightarrow> steps new = [LookupRoute])"
  using assms
  by (auto simp: run_defs sent_for_def entitlement_request_def split: if_splits option.splits)

lemma provision_shape:
  assumes "provisionUser dc env cfg s user = (p, s')"
  shows "\<exists>new. s' = emit s new
     \<and> steps new \<in> set [[], [Call CreateUser]]
     \<and> list_all (sent_for dc cfg req flt tid) new
     \<and> p \<noteq> Pending
     \<and> ((\<exists>u. p = Fulfilled u) \<longrightarrow> steps new = [Call CreateUser])"
proof (cases "nullish user")
  case True
  with assms show ?thesis
    by (intro exI[of _ "[]"]) (auto simp: provisionUser_def)
next
  case False
  show ?thesis
  proof (cases "createUser_request dc
                (ToString (get_prop user ''firstName'') @ '' '' @ ToString (get_prop user ''lastName''))
                (get_prop user ''handle'') (get_prop user ''email'') (defaultDiscoursePw cfg)")
    case None
    with assms False show ?thesis
      by (intro exI[of _ "[]"]) (auto simp: provisionUser_def)
  next
    case (Some rq)
    have "sent_for dc cfg req flt tid (Http CreateUser rq (http env (events s) rq))"
      unfolding sent_for_def using Some by auto
    with assms False Some show ?thesis
      by (intro exI[of _ "[Http CreateUser rq (http env (events s) rq)]"])
         (auto simp: provisionUser_def axios_alt split: if_splits)
  qed
qed

lemma member_shape:
  assumes "getTopcoderUser env cfg s (headers_authorization req) (authUser_handle req) = (p, s')"
  shows "\<exists>new. s' = emit s new \<and> steps new = [Call MemberLookup]
     \<and> list_all (sent_for dc cfg req flt tid) new \<and> p \<noteq> Pending"
  using assms
  by (auto simp: run_defs sent_for_def split: if_splits)

lemma ensure_shape:
  assumes "ensureUser dc env cfg s req = (p, s')"
  shows "\<exists>new. s' = emit s new
     \<and> list_all (sent_for dc cfg req flt tid) new
     \<and> (case p of
           Fulfilled u \<Rightarrow>
             steps new \<in> set [[Call GetUser], [Call GetUser, Call MemberLookup, Call CreateUser]]
         | Rejected e \<Rightarrow>
             steps new \<in> set [[Call GetUser, Call MemberLookup],
                               [Call GetUser, Call MemberLookup, Call CreateUser]]
         | Pending \<Rightarrow> False)"
proof -
  let ?rq = "getUser_request dc (authUser_handle req)"
  let ?w = "http env (events s) ?rq"
  let ?g = "Http GetUser ?rq ?w"
  have g: "sent_for dc cfg req flt tid ?g"
    by (simp add: sent_for_def)
  show ?thesis
  proof (cases "accepted ?w")
    case True
    with assms g show ?thesis
      by (intro exI[of _ "[?g]"]) (auto simp: ensureUser_def axios_alt)
  next
    case False
    obtain m s2 where m: "getTopcoderUser env cfg (emit s [?g]) (headers_authorization req)
                            (authUser_handle req) = (m, s2)"
      by (cases "getTopcoderUser env cfg (emit s [?g]) (headers_authorization req)
                   (authUser_handle req)")
    from member_shape[OF m, of dc flt tid] obtain n2 where n2: "s2 = emit (emit s [?g]) n2"
      "steps n2 = [Call MemberLookup]" "list_all (sent_for dc cfg req flt tid) n2" "m \<noteq> Pending"
      by blast
    show ?thesis
    proof (cases m)
      case (Fulfilled user)
      with assms False m have pr: "provisionUser dc env cfg s2 user = (p, s')"
        by (simp add: ensureUser_def axios_alt)
      from provision_shape[OF pr, of req flt tid] obtain n3 where n3: "s' = emit s2 n3"
        "steps n3 \<in> set [[], [Call CreateUser]]" "list_all (sent_for dc cfg req flt tid) n3"
        "p \<noteq> Pending" "(\<exists>u. p = Fulfilled u) \<longrightarrow> steps n3 = [Call CreateUser]"
        by blast
      have "s' = emit s (?g # n2 @ n3)" using n2(1) n3(1) by simp
      moreover have "list_all (sent_for dc cfg req flt tid) (?g # n2 @ n3)"
        using g n2(3) n3(3) by simp
      moreover have "(case p of
           Fulfilled u \<Rightarrow>
             steps (?g # n2 @ n3) \<in> set [[Call GetUser], [Call GetUser, Call MemberLookup, Call CreateUser]]
         | Rejected e \<Rightarrow>
             steps (?g # n2 @ n3) \<in> set [[Call GetUser, Call MemberLookup],
                               [Call GetUser, Call MemberLookup, Call CreateUser]]
         | Pending \<Rightarrow> False)"
        using n2(2) n3(2,4,5) by (cases p) auto
      ultimately show ?thesis by blast
    next
      case (Rejected e)
      with assms False m have "p = Rejected e" "s' = s2"
        by (simp_all add: ensureUser_def axios_alt)
      with n2 g show ?thesis
        by (intro exI[of _ "?g # n2"]) auto
    next
      case Pending
      with n2(4) show ?thesis by simp
    qed
  qed
qed

lemma cap_shape:
  assumes "checkAccessAndProvision dc env cfg s req flt = (p, s')"
  shows "\<exists>new. s' = emit s new
     \<and> list_all (sent_for dc cfg req flt tid) new
     \<and> (case p of Fulfilled u \<Rightarrow> steps new \<in> set cap_steps_ok
          | Rejected e \<Rightarrow> steps new \<in> set cap_steps_failed
          | Pending \<Rightarrow> steps new = [LookupRoute])"
proof -
  obtain a s1 where a: "userHasAccessToEntity env s (header_authorization req)
             (filter_prop flt ''reference'') (filter_prop flt ''referenceId'') = (a, s1)"
    by (cases "userHasAccessToEntity env s (header_authorization req)
             (filter_prop flt ''reference'') (filter_prop flt ''referenceId'')")
  from access_shape[OF a, of dc cfg tid] obtain n1 where n1: "s1 = emit s n1"
      "steps n1 \<in> set [[LookupRoute], [LookupRoute, Call EntitlementCheck]]"
      "list_all (sent_for dc cfg req flt tid) n1"
      "\<forall>e. a \<noteq> Rejected e" "a = Pending \<longrightarrow> steps n1 = [LookupRoute]"
    by blast
  show ?thesis
  proof (cases a)
    case (Fulfilled hasAccess)
    show ?thesis
    proof (cases hasAccess)
      case True
      with assms a Fulfilled have e: "ensureUser dc env cfg s1 req = (p, s')"
        by (simp add: checkAccessAndProvision_def)
      from ensure_shape[OF e, of flt tid] obtain n2 where n2: "s' = emit s1 n2"
        "list_all (sent_for dc cfg req flt tid) n2"
        "(case p of
           Fulfilled u \<Rightarrow>
             steps n2 \<in> set [[Call GetUser], [Call GetUser, Call MemberLookup, Call CreateUser]]
         | Rejected e \<Rightarrow>
             steps n2 \<in> set [[Call GetUser, Call MemberLookup],
                               [Call GetUser, Call MemberLookup, Call CreateUser]]
         | Pending \<Rightarrow> False)"
        by blast
      have "s' = emit s (n1 @ n2)" using n1(1) n2(1) by simp
      moreover have "list_all (sent_for dc cfg req flt tid) (n1 @ n2)"
        using n1(3) n2(2) by simp
      moreover have "(case p of Fulfilled u \<Rightarrow> steps (n1 @ n2) \<in> set cap_steps_ok
          | Rejected e \<Rightarrow> steps (n1 @ n2) \<in> set cap_steps_failed
          | Pending \<Rightarrow> steps (n1 @ n2) = [LookupRoute])"
        using n1(2) n2(3)
        by (cases p) (auto simp: cap_steps_ok_def cap_steps_failed_def)
      ultimately show ?thesis by blast
    next
      case False
      with assms a Fulfilled
      have "p = Rejected (Message ''User doesn't have access to entity'')" "s' = s1"
        by (simp_all add: checkAccessAndProvision_def)
      with n1 show ?thesis
        by (intro exI[of _ n1]) (auto simp: cap_steps_failed_def)
    qed
  next
    case (Rejected e)
    with n1(4) show ?thesis by simp
  next
    case Pending
    with assms a have "p = Pending" "s' = s1"
      by (simp_all add: checkAccessAndProvision_def)
    with n1 Pending show ?thesis
      by (intro exI[of _ n1]) auto
  qed
qed

lemma step_of_Call: "step_of e = Call op \<Longrightarrow> \<exists>rq w. e = Http op rq w"
  by (cases e) auto

lemma fetch_alt:
  "fetchTopic dc env s tid h =
     (if accepted (http env (events s) (getTopic_request dc tid h))
      then Fulfilled (TopicDoc (data (answer (http env (events s) (getTopic_request dc tid h)))))
      else Rejected (rejection (http env (events s) (getTopic_request dc tid h))),
      emit s [Http GetTopic (getTopic_request dc tid h)
                (http env (events s) (getTopic_request dc tid h))])"
  by (simp add: fetchTopic_def axios_alt)

lemma save_alt:
  "pgTopic_save env s row =
     (if db_ok env (events s) then Fulfilled () else Rejected DbError,
      (emit s [TopicSave row (db_ok env (events s))])
        \<lparr>topics := (if db_ok env (events s) then topics s @ [row] else topics s)\<rparr>)"
  by (simp add: pgTopic_save_def emit_def Let_def)

lemma gar_shape:
  assumes "grantAndRefetch dc env cfg s req flt pg = (p, s')"
  shows "\<exists>new. s' = emit s new
     \<and> list_all (sent_for dc cfg req flt (discourseTopicId pg)) new
     \<and> (case p of Fulfilled x \<Rightarrow> steps new \<in> set reconcile_steps_ok
          | Rejected e \<Rightarrow> steps new \<in> set reconcile_steps_failed
          | Pending \<Rightarrow> steps new = [LookupRoute])
     \<and> (\<forall>rq w. new \<noteq> [] \<and> last new = Http GetTopic rq w \<longrightarrow>
            p = (if accepted w then Fulfilled (TopicDoc (data (answer w)))
                 else Rejected (rejection w)))"
proof -
  let ?tid = "discourseTopicId pg"
  obtain c s1 where c: "checkAccessAndProvision dc env cfg s req flt = (c, s1)"
    by (cases "checkAccessAndProvision dc env cfg s req flt")
  from cap_shape[OF c, of ?tid] obtain n1 where n1: "s1 = emit s n1"
      "list_all (sent_for dc cfg req flt ?tid) n1"
      "(case c of Fulfilled u \<Rightarrow> steps n1 \<in> set cap_steps_ok
          | Rejected e \<Rightarrow> steps n1 \<in> set cap_steps_failed
          | Pending \<Rightarrow> steps n1 = [LookupRoute])"
    by blast
  have nolast: "\<And>rq w. n1 \<noteq> [] \<Longrightarrow> last n1 = Http GetTopic rq w \<Longrightarrow> False"
  proof -
    fix rq w assume ne: "n1 \<noteq> []" and l: "last n1 = Http GetTopic rq w"
    then have "last (steps n1) = Call GetTopic"
      by (simp add: steps_def last_map)
    with n1(3) show False
      by (cases c) (auto simp: cap_steps_ok_def cap_steps_failed_def)
  qed
  show ?thesis
  proof (cases c)
    case (Fulfilled u)
    let ?grq = "grantAccess_request dc (authUser_handle req) ?tid"
    let ?gw = "http env (events s1) ?grq"
    let ?g = "Http GrantAccess ?grq ?gw"
    have g: "sent_for dc cfg req flt ?tid ?g" by (simp add: sent_for_def)
    show ?thesis
    proof (cases "accepted ?gw")
      case True
      let ?s2 = "emit s1 [?g]"
      let ?frq = "getTopic_request dc ?tid (authUser_handle req)"
      let ?fw = "http env (events ?s2) ?frq"
      let ?f = "Http GetTopic ?frq ?fw"
      have f: "sent_for dc cfg req flt ?tid ?f" by (simp add: sent_for_def)
      from assms c Fulfilled True
      have r: "p = (if accepted ?fw then Fulfilled (TopicDoc (data (answer ?fw)))
                 else Rejected (rejection ?fw))" "s' = emit ?s2 [?f]"
        by (simp_all add: grantAndRefetch_def axios_alt fetch_alt)
      have "s' = emit s (n1 @ [?g, ?f])" using r(2) n1(1) by simp
      moreover have "list_all (sent_for dc cfg req flt ?tid) (n1 @ [?g, ?f])"
        using n1(2) g f by simp
      moreover have "(case p of Fulfilled x \<Rightarrow> steps (n1 @ [?g, ?f]) \<in> set reconcile_steps_ok
          | Rejected e \<Rightarrow> steps (n1 @ [?g, ?f]) \<in> set reconcile_steps_failed
          | Pending \<Rightarrow> steps (n1 @ [?g, ?f]) = [LookupRoute])"
        using n1(3) Fulfilled r(1)
        by (auto simp: reconcile_steps_ok_def reconcile_steps_failed_def)
      moreover have "\<forall>rq w. n1 @ [?g, ?f] \<noteq> [] \<and> last (n1 @ [?g, ?f]) = Http GetTopic rq w \<longrightarrow>
            p = (if accepted w then Fulfilled (TopicDoc (data (answer w)))
                 else Rejected (rejection w))"
        using r(1) by simp
      ultimately show ?thesis by blast
    next
      case False
      from assms c Fulfilled False
      have r: "p = Rejected (rejection ?gw)" "s' = emit s1 [?g]"
        by (simp_all add: grantAndRefetch_def axios_alt)
      have "s' = emit s (n1 @ [?g])" using r(2) n1(1) by simp
      moreover have "list_all (sent_for dc cfg req flt ?tid) (n1 @ [?g])"
        using n1(2) g by simp
      moreover have "(case p of Fulfilled x \<Rightarrow> steps (n1 @ [?g]) \<in> set reconcile_steps_ok
          | Rejected e \<Rightarrow> steps (n1 @ [?g]) \<in> set reconcile_steps_failed
          | Pending \<Rightarrow> steps (n1 @ [?g]) = [LookupRoute])"
        using n1(3) Fulfilled r(1)
        by (auto simp: reconcile_steps_failed_def)
      moreover have "\<forall>rq w. n1 @ [?g] \<noteq> [] \<and> last (n1 @ [?g]) = Http GetTopic rq w \<longrightarrow>
            p = (if accepted w then Fulfilled (TopicDoc (data (answer w)))
                 else Rejected (rejection w))"
        by simp
      ultimately show ?thesis by blast
    qed
  next
    case (Rejected e)
    with assms c have r: "p = Rejected e" "s' = s1"
      by (simp_all add: grantAndRefetch_def)
    with n1 Rejected nolast show ?thesis
      by (intro exI[of _ n1]) (auto simp: reconcile_steps_failed_def)
  next
    case Pending
    with assms c have r: "p = Pending" "s' = s1"
      by (simp_all add: grantAndRefetch_def)
    with n1 Pending nolast show ?thesis
      by (intro exI[of _ n1]) auto
  qed
qed

lemma accepted_not_403: "accepted w \<Longrightarrow> status (answer w) \<noteq> 403"
  by (auto simp: accepted_def answer_def split: wire.splits)

lemma topicExists_alt:
  "topicExists dc env cfg s req flt pg =
     (let rq = getTopic_request dc (discourseTopicId pg) (authUser_handle req);
          w = http env (events s) rq;
          s1 = emit s [Http GetTopic rq w]
      in if accepted w then (Fulfilled (TopicDoc (data (answer w))), s1)
         else if status (answer w) = 403 then grantAndRefetch dc env cfg s1 req flt pg
         else (Rejected (case w of NoReply \<Rightarrow> TypeError | Reply st d \<Rightarrow> rejection w), s1))"
  by (auto simp: topicExists_def fetch_alt Let_def rejection_def answer_def split: wire.splits)

lemma hit_shape:
  assumes "topicExists dc env cfg s req flt pg = (p, s')"
  shows "\<exists>w rest. s' = emit s (Http GetTopic (getTopic_request dc (discourseTopicId pg)
                                   (authUser_handle req)) w # rest)
     \<and> w = http env (events s) (getTopic_request dc (discourseTopicId pg) (authUser_handle req))
     \<and> list_all (sent_for dc cfg req flt (discourseTopicId pg)) rest
     \<and> (if status (answer w) = 403
         then (case p of Fulfilled x \<Rightarrow> steps rest \<in> set reconcile_steps_ok
                | Rejected e \<Rightarrow> steps rest \<in> set reconcile_steps_failed
                | Pending \<Rightarrow> steps rest = [LookupRoute])
              \<and> (\<forall>rq w'. rest \<noteq> [] \<and> last rest = Http GetTopic rq w' \<longrightarrow>
                    p = (if accepted w' then Fulfilled (TopicDoc (data (answer w')))
                         else Rejected (rejection w')))
         else rest = []
              \<and> (if accepted w then p = Fulfilled (TopicDoc (data (answer w)))
                  else (\<exists>e. p = Rejected e)))"
proof -
  let ?rq = "getTopic_request dc (discourseTopicId pg) (authUser_handle req)"
  let ?w = "http env (events s) ?rq"
  let ?s1 = "emit s [Http GetTopic ?rq ?w]"
  show ?thesis
  proof (cases "status (answer ?w) = 403")
    case True
    then have na: "\<not> accepted ?w" using accepted_not_403 by blast
    with assms True have g: "grantAndRefetch dc env cfg ?s1 req flt pg = (p, s')"
      by (simp add: topicExists_alt Let_def)
    from gar_shape[OF g] obtain new where new: "s' = emit ?s1 new"
      "list_all (sent_for dc cfg req flt (discourseTopicId pg)) new"
      "(case p of Fulfilled x \<Rightarrow> steps new \<in> set reconcile_steps_ok
          | Rejected e \<Rightarrow> steps new \<in> set reconcile_steps_failed
          | Pending \<Rightarrow> steps new = [LookupRoute])"
      "\<forall>rq w. new \<noteq> [] \<and> last new = Http GetTopic rq w \<longrightarrow>
            p = (if accepted w then Fulfilled (TopicDoc (data (answer w)))
                 else Rejected (rejection w))"
      by blast
    from new(1) have "s' = emit s (Http GetTopic ?rq ?w # new)" by simp
    with new(2,3,4) True show ?thesis
      by (intro exI[of _ ?w] exI[of _ new]) simp
  next
    case False
    with assms show ?thesis
      by (intro exI[of _ ?w] exI[of _ "[]"]) (auto simp: topicExists_alt Let_def)
  qed
qed

lemma miss_shape:
  assumes "topicMissing dc env cfg s req flt = (p, s')"
  shows "\<exists>new. events s' = events s @ new
     \<and> referenceLookups s' = referenceLookups s
     \<and> list_all (sent_for dc cfg req flt tid) new
     \<and> (case p of
           Fulfilled x \<Rightarrow>
             (\<exists>c d ca ua. steps c \<in> set cap_steps_ok
                \<and> new = c @ [Http CreatePrivatePost
                                (createPrivatePost_request dc (discussion_title flt)
                                   (discussion_title flt) (authUser_handle req) None)
                                (Reply 200 d),
                              TopicSave (built_row req flt d ca ua) True]
                \<and> \<not> nullish d
                \<and> x = AxiosResponse \<lparr>status = 200, data = d\<rparr>
                \<and> topics s' = topics s @ [built_row req flt d ca ua])
         | Rejected e \<Rightarrow> topics s' = topics s \<and> steps new \<in> set create_steps_failed
         | Pending \<Rightarrow> topics s' = topics s \<and> steps new = [LookupRoute])"
proof -
  obtain c s1 where c: "checkAccessAndProvision dc env cfg s req flt = (c, s1)"
    by (cases "checkAccessAndProvision dc env cfg s req flt")
  from cap_shape[OF c, of tid] obtain n1 where n1: "s1 = emit s n1"
      "list_all (sent_for dc cfg req flt tid) n1"
      "(case c of Fulfilled u \<Rightarrow> steps n1 \<in> set cap_steps_ok
          | Rejected e \<Rightarrow> steps n1 \<in> set cap_steps_failed
          | Pending \<Rightarrow> steps n1 = [LookupRoute])"
    by blast
  show ?thesis
  proof (cases c)
    case (Fulfilled u)
    let ?rq = "createPrivatePost_request dc (discussion_title flt) (discussion_title flt)
                 (authUser_handle req) None"
    let ?w = "http env (events s1) ?rq"
    let ?e = "Http CreatePrivatePost ?rq ?w"
    let ?s2 = "emit s1 [?e]"
    have e: "sent_for dc cfg req flt tid ?e" by (simp add: sent_for_def)
    have ok1: "steps n1 \<in> set cap_steps_ok" using n1(3) Fulfilled by simp
    show ?thesis
    proof (cases "accepted ?w \<and> status (answer ?w) = 200 \<and> \<not> nullish (data (answer ?w))")
      case True
      then obtain d where w: "?w = Reply 200 d" "\<not> nullish d"
        by (auto simp: accepted_def answer_def split: wire.splits)
      let ?row = "built_row req flt d (newDate env (events ?s2) 0) (newDate env (events ?s2) 1)"
      let ?sv = "TopicSave ?row (db_ok env (events ?s2))"
      have sv: "sent_for dc cfg req flt tid ?sv" by (simp add: sent_for_def)
      show ?thesis
      proof (cases "db_ok env (events ?s2)")
        case True
        from assms c Fulfilled w True
        have r: "p = Fulfilled (AxiosResponse \<lparr>status = 200, data = d\<rparr>)"
          "s' = (emit ?s2 [TopicSave ?row True])\<lparr>topics := topics s @ [?row]\<rparr>"
          using n1(1)
          by (simp_all add: topicMissing_def axios_alt save_alt accepted_def answer_def built_row_def)
        from r(2) n1(1) w have ev: "events s' = events s @ (n1 @ [Http CreatePrivatePost ?rq (Reply 200 d), TopicSave ?row True])"
          by simp
        from r(2) n1(1) have rl: "referenceLookups s' = referenceLookups s" "topics s' = topics s @ [?row]"
          by simp_all
        have la: "list_all (sent_for dc cfg req flt tid) (n1 @ [Http CreatePrivatePost ?rq (Reply 200 d), TopicSave ?row True])"
          using n1(2) e w by (simp add: sent_for_def)
        show ?thesis
          apply (rule exI[of _ "n1 @ [Http CreatePrivatePost ?rq (Reply 200 d), TopicSave ?row True]"])
          apply (simp only: ev rl la r(1) promise.case simp_thms)
          apply (rule exI[of _ n1], rule exI[of _ d], rule exI, rule exI)
          using ok1 w(2) apply simp
          done
      next
        case False
        from assms c Fulfilled w False
        have r: "p = Rejected DbError"
          "s' = (emit ?s2 [TopicSave ?row False])\<lparr>topics := topics s\<rparr>"
          using n1(1)
          by (simp_all add: topicMissing_def axios_alt save_alt accepted_def answer_def built_row_def)
        from r(2) n1(1) have ev: "events s' = events s @ (n1 @ [?e, TopicSave ?row False])"
          by simp
        from r(2) n1(1) have rl: "referenceLookups s' = referenceLookups s" "topics s' = topics s"
          by simp_all
        have la: "list_all (sent_for dc cfg req flt tid) (n1 @ [?e, TopicSave ?row False])"
          using n1(2) e by (simp add: sent_for_def)
        have st: "steps (n1 @ [?e, TopicSave ?row False]) \<in> set create_steps_failed"
          using ok1 by (auto simp: create_steps_failed_def)
        show ?thesis
          by (rule exI[of _ "n1 @ [?e, TopicSave ?row False]"]) (simp only: ev rl la r(1) st promise.case simp_thms)
      qed
    next
      case False
      from assms c Fulfilled False
      have r: "\<exists>e. p = Rejected e" "s' = ?s2"
        by (auto simp: topicMissing_def axios_alt split: if_splits)
      then obtain er where er: "p = Rejected er" by blast
      have st: "steps (n1 @ [?e]) \<in> set create_steps_failed"
        using ok1 by (auto simp: create_steps_failed_def)
      from r(2) n1 e er st show ?thesis
        by (intro exI[of _ "n1 @ [?e]"]) simp
    qed
  next
    case (Rejected e)
    with assms c have r: "p = Rejected e" "s' = s1"
      by (simp_all add: topicMissing_def)
    with n1 Rejected show ?thesis
      by (intro exI[of _ n1]) (auto simp: create_steps_failed_def)
  next
    case Pending
    with assms c have r: "p = Pending" "s' = s1"
      by (simp_all add: topicMissing_def)
    with n1 Pending show ?thesis
      by (intro exI[of _ n1]) auto
  qed
qed

lemma ensure_fast_path:
  assumes "accepted (http env (events s) (getUser_request dc (authUser_handle req)))"
  shows "ensureUser dc env cfg s req
       = (Fulfilled (data (answer (http env (events s) (getUser_request dc (authUser_handle req))))),
          emit s [Http GetUser (getUser_request dc (authUser_handle req))
                    (http env (events s) (getUser_request dc (authUser_handle req)))])"
  using assms by (simp add: ensureUser_def axios_alt)

lemma ensure_first_event:
  "\<exists>rest. snd (ensureUser dc env cfg s req)
       = emit s (Http GetUser (getUser_request dc (authUser_handle req))
                    (http env (events s) (getUser_request dc (authUser_handle req))) # rest)
     \<and> (accepted (http env (events s) (getUser_request dc (authUser_handle req))) \<longrightarrow> rest = [])
     \<and> steps rest \<in> set [[], [Call MemberLookup], [Call MemberLookup, Call CreateUser]]"
proof (cases "accepted (http env (events s) (getUser_request dc (authUser_handle req)))")
  case True
  then show ?thesis by (intro exI[of _ "[]"]) (simp add: ensure_fast_path)
next
  case False
  let ?g = "Http GetUser (getUser_request dc (authUser_handle req))
                    (http env (events s) (getUser_request dc (authUser_handle req)))"
  obtain m s2 where m: "getTopcoderUser env cfg (emit s [?g]) (headers_authorization req)
                            (authUser_handle req) = (m, s2)"
    by (cases "getTopcoderUser env cfg (emit s [?g]) (headers_authorization req)
                   (authUser_handle req)")
  from member_shape[OF m, of dc "[]" JNull] obtain n2 where n2: "s2 = emit (emit s [?g]) n2"
      "steps n2 = [Call MemberLookup]" "m \<noteq> Pending"
    by blast
  show ?thesis
  proof (cases m)
    case (Fulfilled user)
    obtain p s3 where pr: "provisionUser dc env cfg s2 user = (p, s3)"
      by (cases "provisionUser dc env cfg s2 user")
    from provision_shape[OF pr, of req "[]" JNull] obtain n3 where n3: "s3 = emit s2 n3"
        "steps n3 \<in> set [[], [Call CreateUser]]"
      by blast
    from False m Fulfilled pr have "snd (ensureUser dc env cfg s req) = s3"
      by (simp add: ensureUser_def axios_alt)
    with n2 n3 False show ?thesis
      by (intro exI[of _ "n2 @ n3"]) auto
  next
    case (Rejected e)
    with False m have "snd (ensureUser dc env cfg s req) = s2"
      by (simp add: ensureUser_def axios_alt)
    with n2 False show ?thesis
      by (intro exI[of _ "n2"]) auto
  next
    case Pending
    with n2(3) show ?thesis by simp
  qed
qed

lemma respond_simps:
  "respond (Rejected e) = Responded 500 error_fetching_topic"
  "respond Pending = NoResponse"
  "respond (Fulfilled (TopicDoc d)) =
     (if nullish d then Responded 500 error_fetching_topic else Responded 200 (get_prop d ''data''))"
  "respond (Fulfilled (AxiosResponse r)) = Responded 200 (data r)"
  by (simp_all add: respond_def)

lemma reconcile_counts:
  assumes "st \<in> set (reconcile_steps_ok @ reconcile_steps_failed @ [[LookupRoute]])"
  shows "count_list st (Call GetTopic) \<le> 1 \<and> count_list st (Call GrantAccess) \<le> 1
       \<and> count_list st LookupRoute \<le> 1 \<and> count_list st (Call GetUser) \<le> 1
       \<and> count_list st (Call CreatePrivatePost) = 0 \<and> count_list st SaveTopic = 0"
  using assms
  by (auto simp: reconcile_steps_ok_def reconcile_steps_failed_def cap_steps_ok_def
      cap_steps_failed_def)

lemma last_step:
  assumes "new \<noteq> []" "step_of (last new) = Call op"
  shows "\<exists>rq w. last new = Http op rq w"
  using assms step_of_Call by blast

lemma steps_last: "new \<noteq> [] \<Longrightarrow> step_of (last new) = last (steps new)"
  by (simp add: steps_def last_map)

lemma steps_Nil_iff [simp]: "steps new = [] \<longleftrightarrow> new = []"
  by (simp add: steps_def)

lemma reconcile_ok_last:
  assumes "steps rest \<in> set reconcile_steps_ok"
  shows "rest \<noteq> [] \<and> (\<exists>rq w. last rest = Http GetTopic rq w)"
proof -
  from assms have ne: "steps rest \<noteq> []" and l: "last (steps rest) = Call GetTopic"
    by (auto simp: reconcile_steps_ok_def cap_steps_ok_def)
  from ne have "rest \<noteq> []" by auto
  with l steps_last[of rest] last_step[of rest GetTopic] show ?thesis by auto
qed

lemma sent_for_last_fetch:
  assumes "list_all (sent_for dc cfg req flt tid) new" "new \<noteq> []" "last new = Http GetTopic rq w"
  shows "rq = getTopic_request dc tid (authUser_handle req)"
proof -
  from assms(2) have "last new \<in> set new" by simp
  with assms(1) have "sent_for dc cfg req flt tid (last new)"
    by (simp add: list_all_iff)
  with assms(3) show ?thesis by (simp add: sent_for_def)
qed

lemma hit_summary:
  assumes "topicExists dc env cfg s req flt pg = (p, s')"
  shows "\<exists>new. s' = emit s new
     \<and> list_all (sent_for dc cfg req flt (discourseTopicId pg)) new
     \<and> Call CreatePrivatePost \<notin> set (steps new) \<and> SaveTopic \<notin> set (steps new)
     \<and> ((\<exists>b. respond p = Responded 200 b) \<longrightarrow>
          (\<exists>w. new \<noteq> [] \<and> accepted w
              \<and> last new = Http GetTopic (getTopic_request dc (discourseTopicId pg)
                                             (authUser_handle req)) w))"
proof -
  let ?rq = "getTopic_request dc (discourseTopicId pg) (authUser_handle req)"
  from hit_shape[OF assms] obtain w rest where r:
    "s' = emit s (Http GetTopic ?rq w # rest)"
    "list_all (sent_for dc cfg req flt (discourseTopicId pg)) rest"
    "(if status (answer w) = 403
         then (case p of Fulfilled x \<Rightarrow> steps rest \<in> set reconcile_steps_ok
                | Rejected e \<Rightarrow> steps rest \<in> set reconcile_steps_failed
                | Pending \<Rightarrow> steps rest = [LookupRoute])
              \<and> (\<forall>rq w'. rest \<noteq> [] \<and> last rest = Http GetTopic rq w' \<longrightarrow>
                    p = (if accepted w' then Fulfilled (TopicDoc (data (answer w')))
                         else Rejected (rejection w')))
         else rest = []
              \<and> (if accepted w then p = Fulfilled (TopicDoc (data (answer w)))
                  else (\<exists>e. p = Rejected e)))"
    by blast
  let ?new = "Http GetTopic ?rq w # rest"
  have la: "list_all (sent_for dc cfg req flt (discourseTopicId pg)) ?new"
    using r(2) by (simp add: sent_for_def)
  have mem: "steps rest \<in> set (reconcile_steps_ok @ reconcile_steps_failed @ [[LookupRoute]])
             \<or> rest = []"
    using r(3) by (cases p) (auto split: if_splits)
  have no: "Call CreatePrivatePost \<notin> set (steps ?new) \<and> SaveTopic \<notin> set (steps ?new)"
  proof (cases "rest = []")
    case True
    then show ?thesis by simp
  next
    case False
    with mem reconcile_counts[of "steps rest"] show ?thesis
      by (simp add: count_list_0_iff)
  qed
  have fin: "(\<exists>b. respond p = Responded 200 b) \<longrightarrow>
          (\<exists>w'. ?new \<noteq> [] \<and> accepted w' \<and> last ?new = Http GetTopic ?rq w')"
  proof
    assume "\<exists>b. respond p = Responded 200 b"
    then obtain x where x: "p = Fulfilled x"
      by (cases p) (auto simp: respond_simps)
    show "\<exists>w'. ?new \<noteq> [] \<and> accepted w' \<and> last ?new = Http GetTopic ?rq w'"
    proof (cases "status (answer w) = 403")
      case True
      with r(3) x have ok: "steps rest \<in> set reconcile_steps_ok"
        and l: "\<forall>rq w'. rest \<noteq> [] \<and> last rest = Http GetTopic rq w' \<longrightarrow>
                    p = (if accepted w' then Fulfilled (TopicDoc (data (answer w')))
                         else Rejected (rejection w'))"
        by auto
      from reconcile_ok_last[OF ok] obtain rq' w' where lw: "rest \<noteq> []" "last rest = Http GetTopic rq' w'"
        by blast
      from sent_for_last_fetch[OF r(2) lw] have "rq' = ?rq" .
      moreover from l lw x have "accepted w'" by (auto split: if_splits)
      ultimately show ?thesis using lw by auto
    next
      case False
      with r(3) x show ?thesis by (auto split: if_splits)
    qed
  qed
  from r(1) la no fin show ?thesis
    by (intro exI[of _ ?new]) blast
qed

lemma orchestrate_cases:
  assumes "orchestrate dc env cfg s req flt = (out, s')"
  shows "(out = Responded 500 error_fetching_topic \<and> s' = emit s [TopicsFindAll flt]
          \<and> (\<not> db_ok env (events s) \<or> \<not> list_all (\<lambda>(k, v). k \<in> set topic_columns) flt))
       \<or> (filter (row_matches flt) (topics s) = []
          \<and> (\<exists>p. topicMissing dc env cfg (emit s [TopicsFindAll flt]) req flt = (p, s')
                \<and> out = respond p))
       \<or> (\<exists>pg others p. filter (row_matches flt) (topics s) = pg # others
          \<and> topicExists dc env cfg (emit s [TopicsFindAll flt]) req flt pg = (p, s')
          \<and> out = respond p)"
  using assms
  by (auto simp: orchestrate_def findAll_alt split: if_splits list.splits prod.splits)

lemma handler_cases:
  assumes "handler dc env cfg s req = (out, s')"
  shows "(s' = s \<and> (out = Threw \<or> out = Responded 400 missing_filter_message))
       \<or> (\<exists>q. query_string (query_filter req) = Some q
             \<and> truthy (filter_prop (parseFilter q) ''reference'')
             \<and> truthy (filter_prop (parseFilter q) ''referenceId'')
             \<and> orchestrate dc env cfg s req (parseFilter q) = (out, s'))"
  using assms
  by (auto simp: handler_def Let_def split: option.splits if_splits)

lemma row_matches_pair:
  assumes "set flt = {(''reference'', T), (''referenceId'', I)}"
  shows "row_matches flt t \<longleftrightarrow> reference t = T \<and> referenceId t = I"
  using assms by (simp add: row_matches_def list_all_iff topic_column_def)

lemma pair_filter_columns:
  "list_all (\<lambda>(k, v). k \<in> set topic_columns) [(''reference'', T), (''referenceId'', I)]"
  by (simp add: topic_columns_def)


lemma orchestrate_sent:
  assumes "orchestrate dc env cfg s req flt = (out, s')"
  shows "\<exists>rest tid. events s' = events s @ TopicsFindAll flt # rest
           \<and> list_all (sent_for dc cfg req flt tid) rest"
proof -
  let ?s1 = "emit s [TopicsFindAll flt]"
  from orchestrate_cases[OF assms] consider
      (failed) "s' = ?s1"
    | (miss) p where "topicMissing dc env cfg ?s1 req flt = (p, s')"
    | (hit) pg p where "topicExists dc env cfg ?s1 req flt pg = (p, s')"
    by blast
  then show ?thesis
  proof cases
    case failed
    then show ?thesis by (intro exI[of _ "[]"]) simp
  next
    case miss
    from miss_shape[OF miss, of JNull] obtain new where
      "events s' = events ?s1 @ new" "list_all (sent_for dc cfg req flt JNull) new"
      by blast
    then show ?thesis by (intro exI[of _ new] exI[of _ JNull]) simp
  next
    case hit
    from hit_summary[OF hit] obtain new where
      "s' = emit ?s1 new" "list_all (sent_for dc cfg req flt (discourseTopicId pg)) new"
      by blast
    then show ?thesis by (intro exI[of _ new] exI[of _ "discourseTopicId pg"]) simp
  qed
qed

lemma sent_for_attributed:
  assumes "sent_for (Discourse cfg) cfg req flt tid e"
    and "\<not> isDiscourseAdmin cfg (authUser_handle req)"
  shows "attributed cfg (authUser_handle req) e"
proof (cases e)
  case (Http op rq w)
  with assms show ?thesis
    by (cases op)
       (auto simp: sent_for_def attributed_def api_username_def Discourse_def getUser_def
          createUser_def createPrivatePost_def getTopic_def grantAccess_def client_defaults_def
          merge_params_def)
qed (simp_all add: attributed_def)

lemma map_of_filter_set:
  "map_of (filter_set flt k v) = (if k = ''__proto__'' then map_of flt else (map_of flt)(k \<mapsto> v))"
  by (simp add: filter_set_def update_conv')

lemma parse_fold:
  "map_of (foldl (\<lambda>flt value. case split_on CHR ''='' value of
                            [k, v] \<Rightarrow> filter_set flt k v
                          | _ \<Rightarrow> flt) acc segs) k
   = (if k = ''__proto__'' then map_of acc k
      else (case map_of (rev (concat (map (\<lambda>seg. case split_on CHR ''='' seg of [k, v] \<Rightarrow> [(k, v)] | _ \<Rightarrow> []) segs))) k of
          None \<Rightarrow> map_of acc k | Some v \<Rightarrow> Some v))"
proof (induction segs arbitrary: acc)
  case Nil
  then show ?case by simp
next
  case (Cons seg segs)
  show ?case
    apply (simp only: foldl_Cons Cons.IH)
    apply (auto simp: map_of_filter_set map_add_def split: list.splits option.splits)
    done
qed





text \<open>What the handler's four-argument call of \<^verbatim>\<open>createUser\<close> sends with either client: with
  the one that takes the logger, the configured password is sent as the e-mail address, the
  member's e-mail address as the user field and no password; with the other one the call
  throws and nothing is sent.\<close>

lemma createUser_arguments_shifted:
  "\<exists>rq. createUser_request (Discourse cfg) name h e pw = Some rq
      \<and> get_prop (body rq) ''username'' = h
      \<and> get_prop (body rq) ''email'' = JStr pw
      \<and> get_prop (body rq) ''password'' = JUndefined
      \<and> get_prop (body rq) ''user_fields'' = JObj [(''1'', e)]"
  by (simp add: Discourse_def createUser_def)

lemma createUser_001_throws: "createUser_request (Discourse_001 cfg) name h e pw = None"
  by (simp add: Discourse_001_def createUser_001_def)

section \<open>Properties of the handler\<close>


















text \<open>
  C4. When the route lookup finds no row for the reference type, \<^verbatim>\<open>userHasAccessToEntity\<close>
  resolves \<^verbatim>\<open>true\<close> for every token and reference id, and the only thing it does is the
  lookup: no HTTP request is sent, so the result is the same whatever the HTTP world would
  have answered.
\<close>

theorem no_route_grants:
  assumes "db_ok env (events s)"
    and "\<forall>r \<in> set (referenceLookups s). JStr (lookupReference r) \<noteq> ref"
  shows "userHasAccessToEntity env s authToken ref refId
           = (Fulfilled True, emit s [ReferenceLookupsFindOne ref])
         \<and> userHasAccessToEntity (env\<lparr>http := h\<rparr>) s authToken ref refId
           = userHasAccessToEntity env s authToken ref refId"
proof -
  from assms(2) have "find (\<lambda>r. JStr (lookupReference r) = ref) (referenceLookups s) = None"
    by (simp add: find_None_iff)
  with assms(1) show ?thesis
    by (simp add: userHasAccessToEntity_def findOne_alt)
qed

theorem no_route_grants_witness:
  "userHasAccessToEntity (world []) demo_state (JStr ''token'') (JStr ''challenge'') (JStr ''7'')
     = (Fulfilled True, emit demo_state [ReferenceLookupsFindOne (JStr ''challenge'')])"
  using no_route_grants [of "world []" demo_state "JStr ''challenge''" "JStr ''token''" "JStr ''7''"]
  by (simp add: world_def demo_state_def)

text \<open>
  C5 (as amended). When the user lookup is accepted, the provisioning step returns the body
  of the lookup and has done nothing but the lookup. A run sends at most one creation of a
  user, and only when the lookup was rejected, whatever it was rejected with. When a second
  run follows a first and its lookup is accepted, the two runs together have sent at most
  one creation.
\<close>

theorem ensure_user_creates_at_most_once:
  fixes dc env cfg s req
  defines "rq \<equiv> getUser_request dc (authUser_handle req)"
  defines "s1 \<equiv> snd (ensureUser dc env cfg s req)"
  defines "s2 \<equiv> snd (ensureUser dc env cfg s1 req)"
  shows "(accepted (http env (events s) rq) \<longrightarrow>
            ensureUser dc env cfg s req
              = (Fulfilled (data (answer (http env (events s) rq))),
                 emit s [Http GetUser rq (http env (events s) rq)]))
       \<and> (\<exists>new. s1 = emit s new
             \<and> count_list (steps new) (Call CreateUser) \<le> 1
             \<and> (Call CreateUser \<in> set (steps new) \<longrightarrow> \<not> accepted (http env (events s) rq)))
       \<and> (accepted (http env (events s1) rq) \<longrightarrow>
            (\<exists>new. s2 = emit s new \<and> count_list (steps new) (Call CreateUser) \<le> 1))"
proof (intro conjI)
  show "accepted (http env (events s) rq) \<longrightarrow>
            ensureUser dc env cfg s req
              = (Fulfilled (data (answer (http env (events s) rq))),
                 emit s [Http GetUser rq (http env (events s) rq)])"
    unfolding rq_def by (simp add: ensure_fast_path)
next
  from ensure_first_event[of dc env cfg s req] obtain rest where rest:
    "s1 = emit s (Http GetUser rq (http env (events s) rq) # rest)"
    "accepted (http env (events s) rq) \<longrightarrow> rest = []"
    "steps rest \<in> set [[], [Call MemberLookup], [Call MemberLookup, Call CreateUser]]"
    unfolding rq_def s1_def by blast
  then show "\<exists>new. s1 = emit s new
             \<and> count_list (steps new) (Call CreateUser) \<le> 1
             \<and> (Call CreateUser \<in> set (steps new) \<longrightarrow> \<not> accepted (http env (events s) rq))"
    by (intro exI[of _ "Http GetUser rq (http env (events s) rq) # rest"]) auto
  show "accepted (http env (events s1) rq) \<longrightarrow>
            (\<exists>new. s2 = emit s new \<and> count_list (steps new) (Call CreateUser) \<le> 1)"
  proof
    assume a: "accepted (http env (events s1) rq)"
    then have "s2 = emit s1 [Http GetUser rq (http env (events s1) rq)]"
      unfolding s2_def rq_def by (simp add: ensure_fast_path)
    with rest(1) have "s2 = emit s (Http GetUser rq (http env (events s) rq) # rest
                       @ [Http GetUser rq (http env (events s1) rq)])"
      by simp
    with rest(3) show "\<exists>new. s2 = emit s new \<and> count_list (steps new) (Call CreateUser) \<le> 1"
      by (intro exI[of _ "Http GetUser rq (http env (events s) rq) # rest
                       @ [Http GetUser rq (http env (events s1) rq)]"]) auto
  qed
qed

lemma eval_lookup_ok:
  "accepted (http world_ok (events demo_state)
               (getUser_request demo_dc (authUser_handle demo_req)))"
  by code_simp

lemma eval_on_demand_first:
  "steps (events (snd (ensureUser demo_dc world_user_on_demand demo_cfg demo_state demo_req)))
     = [Call GetUser, Call MemberLookup, Call CreateUser]"
  by code_simp

lemma eval_on_demand_second:
  "accepted (http world_user_on_demand
               (events (snd (ensureUser demo_dc world_user_on_demand demo_cfg demo_state demo_req)))
               (getUser_request demo_dc (authUser_handle demo_req)))"
  by code_simp

theorem ensure_user_creates_at_most_once_witness:
  "fst (ensureUser demo_dc world_ok demo_cfg demo_state demo_req)
     = Fulfilled (JObj [(''user'', JObj [(''username'', JStr ''bob'')])])
   \<and> steps (events (snd (ensureUser demo_dc world_ok demo_cfg demo_state demo_req)))
     = [Call GetUser]
   \<and> \<not> accepted (http world_user_on_demand (events demo_state)
                     (getUser_request demo_dc (authUser_handle demo_req)))
   \<and> (\<exists>new. snd (ensureUser demo_dc world_user_on_demand demo_cfg
                    (snd (ensureUser demo_dc world_user_on_demand demo_cfg demo_state demo_req))
                    demo_req)
              = emit demo_state new
            \<and> count_list (steps new) (Call CreateUser) \<le> 1)"
proof -
  let ?rq = "getUser_request demo_dc (authUser_handle demo_req)"
  note ok = ensure_user_creates_at_most_once [of world_ok demo_state demo_dc demo_req demo_cfg]
  note od = ensure_user_creates_at_most_once [of world_user_on_demand demo_state demo_dc demo_req demo_cfg]
  from ok eval_lookup_ok
  have a: "ensureUser demo_dc world_ok demo_cfg demo_state demo_req
             = (Fulfilled (data (answer (http world_ok (events demo_state) ?rq))),
                emit demo_state [Http GetUser ?rq (http world_ok (events demo_state) ?rq)])"
    by blast
  have a1: "fst (ensureUser demo_dc world_ok demo_cfg demo_state demo_req)
     = Fulfilled (JObj [(''user'', JObj [(''username'', JStr ''bob'')])])"
    by code_simp
  have a2: "steps (events (snd (ensureUser demo_dc world_ok demo_cfg demo_state demo_req)))
     = [Call GetUser]"
    using a by (simp add: demo_state_def)
  from od obtain new where n: "snd (ensureUser demo_dc world_user_on_demand demo_cfg demo_state demo_req)
        = emit demo_state new"
    "Call CreateUser \<in> set (steps new) \<longrightarrow>
       \<not> accepted (http world_user_on_demand (events demo_state) ?rq)"
    by (elim exE conjE) (rule that)
  from n(1) eval_on_demand_first have "steps new = [Call GetUser, Call MemberLookup, Call CreateUser]"
    by (simp add: demo_state_def steps_def)
  with n(2) have b: "\<not> accepted (http world_user_on_demand (events demo_state) ?rq)"
    by simp
  from od eval_on_demand_second
  have c: "\<exists>new. snd (ensureUser demo_dc world_user_on_demand demo_cfg
                    (snd (ensureUser demo_dc world_user_on_demand demo_cfg demo_state demo_req))
                    demo_req)
              = emit demo_state new
            \<and> count_list (steps new) (Call CreateUser) \<le> 1"
    by blast
  from a1 a2 b c show ?thesis by (intro conjI) assumption+
qed

text \<open>As the specification states it, the property fails: the user lookup fails with a
  500, which is not a "not found", and the handler goes on to create the user.\<close>

theorem user_created_after_failed_lookup:
  "http (world_no_user 500) (events demo_state) (getUser_request demo_dc (authUser_handle demo_req))
     = Reply 500 JNull
   \<and> steps (events (snd (ensureUser demo_dc (world_no_user 500) demo_cfg demo_state demo_req)))
     = [Call GetUser, Call MemberLookup, Call CreateUser]"
  by code_simp

text \<open>
  C6 (as amended). A run of the handler never changes the route table, and it leaves the
  mapping store as it is or appends one row to it; the rows that were there stay as they
  are. It appends the row only when the lookup with the request's filter found no mapping,
  \<^verbatim>\<open>checkAccessAndProvision\<close> was fulfilled, the creation was answered with status 200 and
  the save succeeded; the row holds the topic id of that answer, and the run answers 200
  with it. For a request whose filter holds exactly \<^verbatim>\<open>reference\<close> and \<^verbatim>\<open>referenceId\<close>, no
  row is written when the store has a mapping for that pair.
\<close>

theorem mapping_written_only_on_creation:
  assumes run: "handler dc env cfg s req = (out, s')"
  shows "referenceLookups s' = referenceLookups s
     \<and> (topics s' = topics s
        \<or> (\<exists>q c d ca ua.
              query_string (query_filter req) = Some q
            \<and> filter (row_matches (parseFilter q)) (topics s) = []
            \<and> steps c \<in> set cap_steps_ok
            \<and> events s' = events s @ TopicsFindAll (parseFilter q) # c
                 @ [Http CreatePrivatePost
                      (createPrivatePost_request dc (discussion_title (parseFilter q))
                         (discussion_title (parseFilter q)) (authUser_handle req) None)
                      (Reply 200 d),
                    TopicSave (built_row req (parseFilter q) d ca ua) True]
            \<and> topics s' = topics s @ [built_row req (parseFilter q) d ca ua]
            \<and> out = Responded 200 d))
     \<and> (\<forall>q T I. query_string (query_filter req) = Some q
            \<and> set (parseFilter q) = {(''reference'', T), (''referenceId'', I)}
            \<and> (\<exists>t \<in> set (topics s). reference t = T \<and> referenceId t = I)
          \<longrightarrow> topics s' = topics s)"
proof -
  have main: "referenceLookups s' = referenceLookups s
     \<and> (topics s' = topics s
        \<or> (\<exists>q c d ca ua.
              query_string (query_filter req) = Some q
            \<and> filter (row_matches (parseFilter q)) (topics s) = []
            \<and> steps c \<in> set cap_steps_ok
            \<and> events s' = events s @ TopicsFindAll (parseFilter q) # c
                 @ [Http CreatePrivatePost
                      (createPrivatePost_request dc (discussion_title (parseFilter q))
                         (discussion_title (parseFilter q)) (authUser_handle req) None)
                      (Reply 200 d),
                    TopicSave (built_row req (parseFilter q) d ca ua) True]
            \<and> topics s' = topics s @ [built_row req (parseFilter q) d ca ua]
            \<and> out = Responded 200 d))"
  proof -
    from handler_cases[OF run] consider
        (early) "s' = s"
      | (orch) q where "query_string (query_filter req) = Some q"
          "orchestrate dc env cfg s req (parseFilter q) = (out, s')"
      by blast
    then show ?thesis
    proof cases
      case early
      then show ?thesis by simp
    next
      case orch
      let ?flt = "parseFilter q"
      let ?s1 = "emit s [TopicsFindAll ?flt]"
      from orchestrate_cases[OF orch(2)] consider
          (failed) "s' = ?s1"
        | (miss) p where "filter (row_matches ?flt) (topics s) = []"
            "topicMissing dc env cfg ?s1 req ?flt = (p, s')" "out = respond p"
        | (hit) pg p where "topicExists dc env cfg ?s1 req ?flt pg = (p, s')"
        by blast
      then show ?thesis
      proof cases
        case failed
        then show ?thesis by simp
      next
        case hit
        from hit_summary[OF hit] obtain new where "s' = emit ?s1 new" by blast
        then show ?thesis by simp
      next
        case miss
        from miss_shape[OF miss(2), of JNull] obtain new where new:
          "events s' = events ?s1 @ new" "referenceLookups s' = referenceLookups ?s1"
          "(case p of
             Fulfilled x \<Rightarrow>
               (\<exists>c d ca ua. steps c \<in> set cap_steps_ok
                  \<and> new = c @ [Http CreatePrivatePost
                                  (createPrivatePost_request dc (discussion_title ?flt)
                                     (discussion_title ?flt) (authUser_handle req) None)
                                  (Reply 200 d),
                                TopicSave (built_row req ?flt d ca ua) True]
                  \<and> \<not> nullish d
                  \<and> x = AxiosResponse \<lparr>status = 200, data = d\<rparr>
                  \<and> topics s' = topics ?s1 @ [built_row req ?flt d ca ua])
           | Rejected e \<Rightarrow> topics s' = topics ?s1 \<and> steps new \<in> set create_steps_failed
           | Pending \<Rightarrow> topics s' = topics ?s1 \<and> steps new = [LookupRoute])"
          by blast
        show ?thesis
        proof (cases p)
          case (Fulfilled x)
          with new(3) obtain c d ca ua where c: "steps c \<in> set cap_steps_ok"
            "new = c @ [Http CreatePrivatePost
                                  (createPrivatePost_request dc (discussion_title ?flt)
                                     (discussion_title ?flt) (authUser_handle req) None)
                                  (Reply 200 d),
                                TopicSave (built_row req ?flt d ca ua) True]"
            "x = AxiosResponse \<lparr>status = 200, data = d\<rparr>"
            "topics s' = topics ?s1 @ [built_row req ?flt d ca ua]"
            by auto
          from miss(3) Fulfilled c(3) have "out = Responded 200 d"
            by (simp add: respond_simps)
          with orch(1) miss(1) c new(1,2) show ?thesis
            by (intro conjI disjI2 exI[of _ q] exI[of _ c] exI[of _ d] exI[of _ ca] exI[of _ ua])
               simp_all
        next
          case (Rejected e)
          with new show ?thesis by simp
        next
          case Pending
          with new show ?thesis by simp
        qed
      qed
    qed
  qed
  have once: "\<forall>q T I. query_string (query_filter req) = Some q
            \<and> set (parseFilter q) = {(''reference'', T), (''referenceId'', I)}
            \<and> (\<exists>t \<in> set (topics s). reference t = T \<and> referenceId t = I)
          \<longrightarrow> topics s' = topics s"
  proof (intro allI impI)
    fix q T I
    assume a: "query_string (query_filter req) = Some q
            \<and> set (parseFilter q) = {(''reference'', T), (''referenceId'', I)}
            \<and> (\<exists>t \<in> set (topics s). reference t = T \<and> referenceId t = I)"
    then obtain t where t: "t \<in> set (topics s)" "row_matches (parseFilter q) t"
      using row_matches_pair[of "parseFilter q" T I] by blast
    then have "filter (row_matches (parseFilter q)) (topics s) \<noteq> []"
      by (auto simp: filter_empty_conv)
    with main a show "topics s' = topics s" by auto
  qed
  from main once show ?thesis by blast
qed

lemma eval_write:
  "topics (snd (handler demo_dc world_ok demo_cfg demo_state demo_req)) = [mapping_7]"
  by code_simp

lemma eval_mapped_filter:
  "query_string (query_filter demo_req) = Some ''reference=project&referenceId=42''
   \<and> set (parseFilter ''reference=project&referenceId=42'')
       = {(''reference'', ''project''), (''referenceId'', ''42'')}
   \<and> reference mapping_7 = ''project'' \<and> referenceId mapping_7 = ''42''
   \<and> topics mapped_state = [mapping_7]"
  by code_simp

theorem mapping_written_only_on_creation_witness:
  "topics (snd (handler demo_dc world_ok demo_cfg demo_state demo_req))
     = topics demo_state @ [mapping_7]
   \<and> referenceLookups (snd (handler demo_dc world_ok demo_cfg demo_state demo_req))
     = referenceLookups demo_state
   \<and> topics (snd (handler demo_dc world_ok demo_cfg mapped_state demo_req)) = topics mapped_state"
proof -
  let ?h1 = "handler demo_dc world_ok demo_cfg demo_state demo_req"
  let ?h2 = "handler demo_dc world_ok demo_cfg mapped_state demo_req"
  have r1: "?h1 = (fst ?h1, snd ?h1)" and r2: "?h2 = (fst ?h2, snd ?h2)" by simp_all
  have a: "referenceLookups (snd ?h1) = referenceLookups demo_state"
    by (rule mapping_written_only_on_creation [OF r1, THEN conjunct1])
  have b: "topics (snd ?h1) = topics demo_state @ [mapping_7]"
    using eval_write by (simp add: demo_state_def)
  have c: "topics (snd ?h2) = topics mapped_state"
  proof (rule mapping_written_only_on_creation [OF r2, THEN conjunct2, THEN conjunct2,
        rule_format, of "''reference=project&referenceId=42''" "''project''" "''42''"])
    show "query_string (query_filter demo_req) = Some ''reference=project&referenceId=42''
            \<and> set (parseFilter ''reference=project&referenceId=42'')
                 = {(''reference'', ''project''), (''referenceId'', ''42'')}
            \<and> (\<exists>t \<in> set (topics mapped_state). reference t = ''project'' \<and> referenceId t = ''42'')"
      using eval_mapped_filter by simp
  qed
  from b a c show ?thesis by (intro conjI) assumption+
qed

text \<open>As the specification states it, the property fails: the store has the mapping of
  project 42; a request for project 42 whose filter also names a creator that is not the
  mapping's finds no mapping, creates a second thread and writes a second mapping for the
  same entity.\<close>

theorem second_mapping_for_one_entity:
  "map (\<lambda>t. (reference t, referenceId t)) (topics mapped_state) = [(''project'', ''42'')]
   \<and> parseFilter ''reference=project&referenceId=42&createdBy=alice''
       = [(''reference'', ''project''), (''referenceId'', ''42''), (''createdBy'', ''alice'')]
   \<and> map (\<lambda>t. (reference t, referenceId t, discourseTopicId t))
        (topics (snd (handler demo_dc world_next_thread demo_cfg mapped_state
           (demo_req\<lparr>query_filter := JStr ''reference=project&referenceId=42&createdBy=alice''\<rparr>))))
       = [(''project'', ''42'', JNum 7), (''project'', ''42'', JNum 8)]"
  by code_simp









text \<open>
  C8. When the parsed filter has no \<^verbatim>\<open>reference\<close> or no \<^verbatim>\<open>referenceId\<close> (or an empty one),
  the handler answers 400 with its message and the state is the one it started in: nothing
  was looked up and no request was sent.
\<close>

theorem missing_filter_is_rejected:
  assumes "query_string (query_filter req) = Some q"
    and "map_of (parseFilter q) ''reference'' \<in> {None, Some []}
         \<or> map_of (parseFilter q) ''referenceId'' \<in> {None, Some []}"
  shows "handler dc env cfg s req = (Responded 400 missing_filter_message, s)"
  using assms by (auto simp: handler_def filter_prop_def Let_def)

theorem missing_filter_is_rejected_witness:
  "map_of (parseFilter ''reference=project'') ''referenceId'' = None
   \<and> handler (Discourse demo_cfg) (world []) demo_cfg demo_state
       (demo_req\<lparr>query_filter := JStr ''reference=project''\<rparr>)
     = (Responded 400
          (JObj [(''message'', JStr ''Please provide reference and referenceId filter parameters'')]),
        demo_state)"
  using missing_filter_is_rejected [of "demo_req\<lparr>query_filter := JStr ''reference=project''\<rparr>"
      "''reference=project''" "Discourse demo_cfg" "world []" demo_cfg demo_state]
  by (simp add: query_string_def parseFilter_def filter_set_def missing_filter_message_def)

text \<open>
  C9 (as amended). For an actor who is not a forum admin, every call of a run is attributed
  as follows: the fetch of the thread to the actor; the creation of the thread, the grant of
  access and the creation of the user to the system user; the user lookup carries the
  actor's name in its URL and the system user's name as its parameter. The older client
  attributes the creation of the thread to the system user as well, since the handler
  passes no owner.
\<close>

theorem forum_calls_attribution:
  assumes run: "handler (Discourse cfg) env cfg s req = (out, s')"
    and actor: "\<not> isDiscourseAdmin cfg (authUser_handle req)"
  shows "(\<exists>new. events s' = events s @ new
            \<and> (\<forall>e \<in> set new. attributed cfg (authUser_handle req) e))
       \<and> api_username (createPrivatePost_001 cfg title post (authUser_handle req) None)
           = Some (discourseSystemUsername cfg)"
proof
  from handler_cases[OF run] consider
      (early) "s' = s"
    | (orch) q where "orchestrate (Discourse cfg) env cfg s req (parseFilter q) = (out, s')"
    by blast
  then show "\<exists>new. events s' = events s @ new
            \<and> (\<forall>e \<in> set new. attributed cfg (authUser_handle req) e)"
  proof cases
    case early
    then show ?thesis by (intro exI[of _ "[]"]) simp
  next
    case orch
    from orchestrate_sent[OF orch] obtain rest tid where rest:
      "events s' = events s @ TopicsFindAll (parseFilter q) # rest"
      "list_all (sent_for (Discourse cfg) cfg req (parseFilter q) tid) rest"
      by blast
    from rest(2) actor have "\<forall>e \<in> set rest. attributed cfg (authUser_handle req) e"
      using sent_for_attributed by (auto simp: list_all_iff)
    with rest(1) show ?thesis
      by (intro exI[of _ "TopicsFindAll (parseFilter q) # rest"]) (simp add: attributed_def)
  qed
  show "api_username (createPrivatePost_001 cfg title post (authUser_handle req) None)
           = Some (discourseSystemUsername cfg)"
    by (simp add: api_username_def createPrivatePost_001_def merge_params_def client_defaults_def)
qed

lemma eval_run_ok_events:
  "events (snd (handler demo_dc world_ok demo_cfg demo_state demo_req)) ! 4
     = Http CreatePrivatePost
         (createPrivatePost demo_cfg ''Discussion for project 42'' ''Discussion for project 42''
            ''bob'' None)
         (Reply 200 (JObj [(''id'', JNum 1), (''topic_id'', JNum 7)]))
   \<and> length (events (snd (handler demo_dc world_ok demo_cfg demo_state demo_req))) = 6
   \<and> events demo_state = []
   \<and> \<not> isDiscourseAdmin demo_cfg (authUser_handle demo_req)
   \<and> authUser_handle demo_req = ''bob''
   \<and> discourseSystemUsername demo_cfg = ''system''"
  by code_simp

theorem forum_calls_attribution_witness:
  "\<not> isDiscourseAdmin demo_cfg (authUser_handle demo_req)
   \<and> api_username (createPrivatePost demo_cfg ''Discussion for project 42''
        ''Discussion for project 42'' ''bob'' None) = Some ''system''"
proof -
  let ?h = "handler (Discourse demo_cfg) world_ok demo_cfg demo_state demo_req"
  let ?e = "Http CreatePrivatePost
         (createPrivatePost demo_cfg ''Discussion for project 42'' ''Discussion for project 42''
            ''bob'' None)
         (Reply 200 (JObj [(''id'', JNum 1), (''topic_id'', JNum 7)]))"
  have r: "?h = (fst ?h, snd ?h)" by simp
  have na: "\<not> isDiscourseAdmin demo_cfg (authUser_handle demo_req)"
    using eval_run_ok_events by blast
  from forum_calls_attribution [OF r na, THEN conjunct1] obtain new where n:
    "events (snd ?h) = events demo_state @ new"
    "\<forall>e \<in> set new. attributed demo_cfg (authUser_handle demo_req) e"
    by (elim exE conjE) (rule that)
  from n(1) eval_run_ok_events have "new ! 4 = ?e" "length new = 6"
    by (simp_all add: demo_dc_def)
  moreover from this have "new ! 4 \<in> set new"
    by (intro nth_mem) simp
  ultimately have "?e \<in> set new" by simp
  with n(2) have "attributed demo_cfg (authUser_handle demo_req) ?e" by blast
  then have "api_username (createPrivatePost demo_cfg ''Discussion for project 42''
        ''Discussion for project 42'' ''bob'' None) = Some (discourseSystemUsername demo_cfg)"
    by (simp add: attributed_def)
  with na eval_run_ok_events show ?thesis by simp
qed

text \<open>As the specification states it, the property fails: \<^verbatim>\<open>bob\<close> is no admin, and the
  creation of the thread sent on behalf of \<^verbatim>\<open>bob\<close> is attributed to the system user, by
  either client.\<close>

theorem thread_created_as_system_user:
  "\<not> isDiscourseAdmin demo_cfg ''bob''
   \<and> authUser_handle demo_req = ''bob''
   \<and> events (snd (handler demo_dc world_ok demo_cfg demo_state demo_req)) ! 4
       = Http CreatePrivatePost
           (createPrivatePost demo_cfg ''Discussion for project 42'' ''Discussion for project 42''
              ''bob'' None)
           (Reply 200 (JObj [(''id'', JNum 1), (''topic_id'', JNum 7)]))
   \<and> api_username (createPrivatePost demo_cfg ''Discussion for project 42''
         ''Discussion for project 42'' ''bob'' None) = Some ''system''
   \<and> api_username (createPrivatePost_001 demo_cfg ''Discussion for project 42''
         ''Discussion for project 42'' ''bob'' None) = Some ''system''"
  by code_simp

text \<open>
  C10 (as amended). The lookup filter maps a key to the value of the last segment of the
  filter string that splits into exactly two parts on \<^verbatim>\<open>=\<close> and has that key; a segment
  with no or more than one \<^verbatim>\<open>=\<close> contributes nothing, and neither does a segment with the
  key \<^verbatim>\<open>__proto__\<close>. Keys other than \<^verbatim>\<open>reference\<close> and \<^verbatim>\<open>referenceId\<close> are kept, and when
  both of these are present and not empty this filter is what the handler looks the mapping
  up with.
\<close>

theorem filter_last_pair_wins:
  "map_of (parseFilter q) k
     = (if k = ''__proto__'' then None else map_of (rev (wellformed_pairs q)) k)
   \<and> (query_string (query_filter req) = Some q
        \<and> truthy (filter_prop (parseFilter q) ''reference'')
        \<and> truthy (filter_prop (parseFilter q) ''referenceId'')
      \<longrightarrow> (\<exists>rest. events (snd (handler dc env cfg s req))
                    = events s @ TopicsFindAll (parseFilter q) # rest))"
proof
  show "map_of (parseFilter q) k
     = (if k = ''__proto__'' then None else map_of (rev (wellformed_pairs q)) k)"
    unfolding parseFilter_def wellformed_pairs_def
    by (simp add: parse_fold split: option.splits)
  show "query_string (query_filter req) = Some q
        \<and> truthy (filter_prop (parseFilter q) ''reference'')
        \<and> truthy (filter_prop (parseFilter q) ''referenceId'')
      \<longrightarrow> (\<exists>rest. events (snd (handler dc env cfg s req))
                    = events s @ TopicsFindAll (parseFilter q) # rest)"
  proof
    assume a: "query_string (query_filter req) = Some q
        \<and> truthy (filter_prop (parseFilter q) ''reference'')
        \<and> truthy (filter_prop (parseFilter q) ''referenceId'')"
    then have h: "handler dc env cfg s req = orchestrate dc env cfg s req (parseFilter q)"
      by (simp add: handler_def Let_def)
    obtain out s' where o: "orchestrate dc env cfg s req (parseFilter q) = (out, s')"
      by (cases "orchestrate dc env cfg s req (parseFilter q)")
    from orchestrate_sent[OF o] h o
    show "\<exists>rest. events (snd (handler dc env cfg s req))
                    = events s @ TopicsFindAll (parseFilter q) # rest"
      by auto
  qed
qed

lemma eval_extra_key:
  "query_string (query_filter (demo_req\<lparr>query_filter := JStr ''a=1&reference=project&b&referenceId=42&c=2=3&a=4''\<rparr>))
     = Some ''a=1&reference=project&b&referenceId=42&c=2=3&a=4''
   \<and> wellformed_pairs ''a=1&reference=project&b&referenceId=42&c=2=3&a=4''
       = [(''a'', ''1''), (''reference'', ''project''), (''referenceId'', ''42''), (''a'', ''4'')]
   \<and> truthy (filter_prop (parseFilter ''a=1&reference=project&b&referenceId=42&c=2=3&a=4'') ''reference'')
   \<and> truthy (filter_prop (parseFilter ''a=1&reference=project&b&referenceId=42&c=2=3&a=4'') ''referenceId'')"
  by code_simp

theorem filter_last_pair_wins_witness:
  "map_of (parseFilter ''a=1&reference=project&b&referenceId=42&c=2=3&a=4'') ''a'' = Some ''4''
   \<and> map_of (parseFilter ''a=1&reference=project&b&referenceId=42&c=2=3&a=4'') ''c'' = None
   \<and> (\<exists>rest. events (snd (handler demo_dc world_ok demo_cfg demo_state
                 (demo_req\<lparr>query_filter := JStr ''a=1&reference=project&b&referenceId=42&c=2=3&a=4''\<rparr>)))
          = events demo_state
            @ TopicsFindAll (parseFilter ''a=1&reference=project&b&referenceId=42&c=2=3&a=4'') # rest)"
proof -
  let ?q = "''a=1&reference=project&b&referenceId=42&c=2=3&a=4''"
  let ?req = "demo_req\<lparr>query_filter := JStr ?q\<rparr>"
  note t = filter_last_pair_wins [of ?q _ ?req demo_dc world_ok demo_cfg demo_state]
  have a: "map_of (parseFilter ?q) ''a'' = Some ''4''"
    using t [of "''a''", THEN conjunct1] eval_extra_key by simp
  have c: "map_of (parseFilter ?q) ''c'' = None"
    using t [of "''c''", THEN conjunct1] eval_extra_key by simp
  have e: "\<exists>rest. events (snd (handler demo_dc world_ok demo_cfg demo_state ?req))
          = events demo_state @ TopicsFindAll (parseFilter ?q) # rest"
    using t [of "''a''", THEN conjunct2] eval_extra_key by blast
  from a c e show ?thesis by (intro conjI) assumption+
qed

text \<open>As the specification states it, the property fails: \<^verbatim>\<open>reference=a\<close> is a
  well-formed pair, and it is not in the lookup filter, since a later pair with the same
  key replaced it; a pair with the key \<^verbatim>\<open>__proto__\<close> never gets into the filter.\<close>

theorem earlier_pair_is_dropped:
  "wellformed_pairs ''reference=a&reference=b&referenceId=1''
     = [(''reference'', ''a''), (''reference'', ''b''), (''referenceId'', ''1'')]
   \<and> parseFilter ''reference=a&reference=b&referenceId=1''
     = [(''reference'', ''b''), (''referenceId'', ''1'')]
   \<and> wellformed_pairs ''__proto__=x''  = [(''__proto__'', ''x'')]
   \<and> parseFilter ''__proto__=x'' = []"
  by code_simp

end
